theory Spec2Isabelle
  imports Complex_Main "HOL-Library.Word" "HOL-Library.AList"
begin

section \<open>Values read from manifests\<close>

text \<open>
  The manifests are parsed JSON, typed \<^verbatim>\<open>any\<close> in the source. A number only
  matters through its truthiness. An object lists its own enumerable properties
  in enumeration order, each key once.
\<close>

datatype jsval = JUndefined | JNull | JBool bool | JNum rat | JStr string
  | JArr "jsval list" | JObj "(string \<times> jsval) list"

type_synonym 'a object = "(string \<times> 'a) list"

section \<open>The outside world and the options\<close>

text \<open>
  A JavaScript string is a sequence of 16-bit code units; the byte-order mark is the
  single unit \<^verbatim>\<open>0xFEFF\<close>. File contents are kept as code units. Paths, names and
  the strings inside manifests are only compared and passed on, and are \<^typ>\<open>string\<close>.
\<close>

type_synonym utf16 = "16 word list"

datatype dependency = Dependency (dep_type: string) (location: string)

text \<open>
  What the resolver is given from outside: the file system and the network, the
  parse-json package, Node's \<^verbatim>\<open>path\<close> and \<^verbatim>\<open>url\<close> modules, and the helpers of
  \<^verbatim>\<open>utils/find\<close>, \<^verbatim>\<open>utils/path\<close> and \<^verbatim>\<open>utils/parse\<close>. A promise that rejects,
  or a call that throws, is \<^const>\<open>None\<close>.
\<close>

record env =
  readFile :: "string \<Rightarrow> utf16 option"
  readHttp :: "string \<Rightarrow> utf16 option"
  parse :: "utf16 \<Rightarrow> string \<Rightarrow> jsval option"
  findUp :: "string \<Rightarrow> string \<Rightarrow> string option"
  findConfigFile :: "string \<Rightarrow> string option"
  isDefinition :: "string \<Rightarrow> bool"
  isHttp :: "string \<Rightarrow> bool"
  parseDependency :: "jsval \<Rightarrow> dependency option"
  resolve :: "string list \<Rightarrow> string"
  join :: "string list \<Rightarrow> string"
  dirname :: "string \<Rightarrow> string"
  resolveUrl :: "string \<Rightarrow> string \<Rightarrow> string"

text \<open>
  \<^verbatim>\<open>Options\<close>. The two flags are optional in the source and only tested for
  truthiness; an absent flag is \<^const>\<open>False\<close>.
\<close>

record options =
  cwd :: string
  dev :: bool
  ambient :: bool

section \<open>The dependency tree\<close>

text \<open>
  \<^verbatim>\<open>DependencyTree\<close>. A property that is absent reads as \<^verbatim>\<open>undefined\<close>, so the
  optional fields hold \<^const>\<open>JUndefined\<close> (or \<^const>\<open>None\<close>) when they are not set.
  \<^verbatim>\<open>parent\<close> is a reference in the source; here it is the parent node as it was
  when the child was created (its dependency maps are assigned only after the children
  have resolved). The resolver reads nothing but \<^verbatim>\<open>src\<close> and \<^verbatim>\<open>parent\<close> through it.
\<close>

datatype tree = Tree
  (type: "string option") (ambient: bool) (missing: bool) (src: "string option")
  (dependencies: "tree object") (devDependencies: "tree object")
  (ambientDependencies: "tree object") (ambientDevDependencies: "tree object")
  (name: jsval) (version: jsval) (main: jsval) (browser: jsval) (typings: jsval)
  (browserTypings: jsval) (parent: "tree option")

section \<open>Promises and the resolver's functions\<close>

text \<open>
  A call either fails (a throw, or a rejected promise that no handler catches),
  fulfils with a value, or has no outcome within the given fuel, which bounds the depth
  of the nested calls.
\<close>

datatype error = CircularDependency "string option" | TypeError | UnsupportedDependency

type_synonym 'a promise = "(error + 'a) option"

text \<open>
  The ten functions of the resolver that call each other. Each is written below with
  the functions it calls taken from such a record; \<open>resolver_of env n\<close> then provides
  them for calls nested at most \<open>n\<close> deep.
\<close>

record resolver =
  resolveDependency :: "dependency \<Rightarrow> options \<Rightarrow> tree option \<Rightarrow> tree promise"
  resolveNpmDependency :: "string \<Rightarrow> options \<Rightarrow> tree option \<Rightarrow> tree promise"
  resolveBowerDependency :: "string \<Rightarrow> options \<Rightarrow> tree option \<Rightarrow> tree promise"
  resolveFileDependency :: "string \<Rightarrow> options \<Rightarrow> tree option \<Rightarrow> tree promise"
  resolveBowerDependencyFrom ::
    "string \<Rightarrow> string \<Rightarrow> options \<Rightarrow> tree option \<Rightarrow> tree promise"
  resolveBowerDependencyMap ::
    "string \<Rightarrow> jsval object \<Rightarrow> options \<Rightarrow> tree \<Rightarrow> tree object promise"
  resolveNpmDependencyFrom :: "string \<Rightarrow> options \<Rightarrow> tree option \<Rightarrow> tree promise"
  resolveNpmDependencyMap ::
    "string \<Rightarrow> jsval object \<Rightarrow> options \<Rightarrow> tree \<Rightarrow> tree object promise"
  resolveTypeDependencyFrom :: "string \<Rightarrow> options \<Rightarrow> tree option \<Rightarrow> tree promise"
  resolveTypeDependencyMap ::
    "string \<Rightarrow> jsval object \<Rightarrow> options \<Rightarrow> tree \<Rightarrow> tree object promise"

section \<open>Objects\<close>

text \<open>\<^verbatim>\<open>typeof x === 'string'\<close>\<close>

definition is_string :: "jsval \<Rightarrow> bool" where
  "is_string x = (case x of JStr s \<Rightarrow> True | _ \<Rightarrow> False)"

text \<open>The truthiness that \<^verbatim>\<open>||\<close>, \<^verbatim>\<open>!!\<close> and \<^verbatim>\<open>? :\<close> test.\<close>

definition truthy :: "jsval \<Rightarrow> bool" where
  "truthy x = (case x of JUndefined \<Rightarrow> False | JNull \<Rightarrow> False | JBool b \<Rightarrow> b
     | JNum n \<Rightarrow> n \<noteq> 0 | JStr s \<Rightarrow> s \<noteq> [] | JArr xs \<Rightarrow> True | JObj kvs \<Rightarrow> True)"

text \<open>
  \<^verbatim>\<open>extend\<close> is the xtend package: a fresh object that receives the own
  properties of each source in turn, \<^verbatim>\<open>target[key] = source[key]\<close>. An
  assignment to a key already present keeps the key's place and replaces its value.
\<close>

definition assign :: "'a object \<Rightarrow> 'a object \<Rightarrow> 'a object" where
  "assign target source = foldl (\<lambda>t (k, v). AList.update k v t) target source"

definition extend :: "'a object list \<Rightarrow> 'a object" where
  "extend sources = foldl assign [] sources"

section \<open>Default and merged trees\<close>

text \<open>\<^verbatim>\<open>DEFAULT_DEPENDENCY\<close> and \<^verbatim>\<open>MISSING_DEPENDENCY\<close>.\<close>

definition DEFAULT_DEPENDENCY :: tree where
  "DEFAULT_DEPENDENCY = Tree None False False None [] [] [] []
     JUndefined JUndefined JUndefined JUndefined JUndefined JUndefined None"

definition MISSING_DEPENDENCY :: tree where
  "MISSING_DEPENDENCY = Tree None False True None [] [] [] []
     JUndefined JUndefined JUndefined JUndefined JUndefined JUndefined None"

definition PROJECT_NAME :: string where
  "PROJECT_NAME = ''typings''"

definition CONFIG_FILE :: string where
  "CONFIG_FILE = PROJECT_NAME @ ''.json''"

subsection \<open>Merging the three ecosystem subtrees\<close>

text \<open>
  The callback of \<^verbatim>\<open>trees.forEach\<close> in \<^verbatim>\<open>mergeDependencies\<close>: the six entry
  fields are taken from a subtree with a string in one of \<^verbatim>\<open>main\<close>, \<^verbatim>\<open>browser\<close>,
  \<^verbatim>\<open>typings\<close>, \<^verbatim>\<open>browserTypings\<close>; then three maps are extended. There is no
  assignment to \<^verbatim>\<open>ambientDevDependencies\<close>.
\<close>

definition merge_tree :: "tree \<Rightarrow> tree \<Rightarrow> tree" where
  "merge_tree dependency dependencyTree =
     (let d = (if is_string (main dependencyTree) \<or> is_string (browser dependencyTree)
                  \<or> is_string (typings dependencyTree)
                  \<or> is_string (browserTypings dependencyTree)
               then Tree (type dependency) (ambient dependency) (missing dependency)
                      (src dependencyTree)
                      (dependencies dependency) (devDependencies dependency)
                      (ambientDependencies dependency) (ambientDevDependencies dependency)
                      (name dependencyTree) (version dependency) (main dependencyTree)
                      (browser dependencyTree) (typings dependencyTree)
                      (browserTypings dependencyTree) (parent dependency)
               else dependency)
      in Tree (type d) (ambient d) (missing d) (src d)
           (extend [dependencies d, dependencies dependencyTree])
           (extend [devDependencies d, devDependencies dependencyTree])
           (extend [ambientDependencies d, ambientDependencies dependencyTree])
           (ambientDevDependencies d)
           (name d) (version d) (main d) (browser d) (typings d) (browserTypings d)
           (parent d))"

definition mergeDependencies :: "tree list \<Rightarrow> tree" where
  "mergeDependencies trees = foldl merge_tree DEFAULT_DEPENDENCY trees"

section \<open>Reading files\<close>

text \<open>The strip-bom package: a string that begins with \<^verbatim>\<open>0xFEFF\<close> loses that unit.\<close>

definition stripBom :: "utf16 \<Rightarrow> utf16" where
  "stripBom x = (case x of [] \<Rightarrow> x | c # cs \<Rightarrow> if c = 0xFEFF then cs else x)"

definition parseJson :: "env \<Rightarrow> utf16 \<Rightarrow> string \<Rightarrow> jsval option" where
  "parseJson env contents path = parse env contents path"

definition readJson :: "env \<Rightarrow> string \<Rightarrow> jsval option" where
  "readJson env path =
     (case readFile env path of None \<Rightarrow> None
      | Some contents \<Rightarrow> parseJson env (stripBom contents) path)"

definition readFileFrom :: "env \<Rightarrow> string \<Rightarrow> utf16 option" where
  "readFileFrom env from = (if isHttp env from then readHttp env from else readFile env from)"

definition readJsonFrom :: "env \<Rightarrow> string \<Rightarrow> jsval option" where
  "readJsonFrom env from =
     (case readFileFrom env from of None \<Rightarrow> None
      | Some contents \<Rightarrow> parseJson env (stripBom contents) from)"

definition parseConfig :: "jsval \<Rightarrow> string \<Rightarrow> jsval" where
  "parseConfig config path = config"

definition readConfigFrom :: "env \<Rightarrow> string \<Rightarrow> jsval option" where
  "readConfigFrom env path =
     (case readJsonFrom env path of None \<Rightarrow> None | Some data \<Rightarrow> Some (parseConfig data path))"

section \<open>Reading manifest values\<close>

text \<open>
  Reading a property of \<^verbatim>\<open>null\<close> or \<^verbatim>\<open>undefined\<close> throws a TypeError. Of any
  other value the resolver reads only the manifest field names, which no string,
  number, boolean or array has: they are found among an object's own properties or
  are \<^verbatim>\<open>undefined\<close>.
\<close>

definition nullish :: "jsval \<Rightarrow> bool" where
  "nullish x = (x = JNull \<or> x = JUndefined)"

definition field :: "jsval \<Rightarrow> string \<Rightarrow> jsval" where
  "field x k = (case x of JObj kvs \<Rightarrow> (case map_of kvs k of Some v \<Rightarrow> v | None \<Rightarrow> JUndefined)
     | _ \<Rightarrow> JUndefined)"

text \<open>The default of a parameter written \<^verbatim>\<open>(json: any = {})\<close>.\<close>

definition default_object :: "jsval \<Rightarrow> jsval" where
  "default_object x = (if x = JUndefined then JObj [] else x)"

fun string_of_nat :: "nat \<Rightarrow> string" where
  "string_of_nat n = (if n < 10 then [char_of (48 + n)]
     else string_of_nat (n div 10) @ [char_of (48 + n mod 10)])"

text \<open>
  The properties that \<^verbatim>\<open>for (key in source)\<close> with \<^verbatim>\<open>hasOwnProperty\<close> visits:
  those of an object, the indices of an array or of a string, none otherwise.
\<close>

definition own_properties :: "jsval \<Rightarrow> jsval object" where
  "own_properties x = (case x of JObj kvs \<Rightarrow> kvs
     | JArr xs \<Rightarrow> zip (map string_of_nat [0..<length xs]) xs
     | JStr s \<Rightarrow> zip (map string_of_nat [0..<length s]) (map (\<lambda>c. JStr [c]) s)
     | _ \<Rightarrow> [])"

text \<open>\<^verbatim>\<open>dependencies[name]\<close>\<close>

definition get :: "'a object \<Rightarrow> string \<Rightarrow> 'a option" where
  "get obj k = map_of obj k"

text \<open>The arrify package.\<close>

definition arrify :: "jsval \<Rightarrow> jsval list" where
  "arrify val = (case val of JNull \<Rightarrow> [] | JUndefined \<Rightarrow> [] | JArr xs \<Rightarrow> xs | _ \<Rightarrow> [val])"

text \<open>The zip-object package: \<^verbatim>\<open>result[keys[i]] = values[i]\<close> for each index.\<close>

definition zipObject :: "string list \<Rightarrow> 'a list \<Rightarrow> 'a object" where
  "zipObject keys vals = assign [] (zip keys vals)"

section \<open>Joining promises\<close>

text \<open>
  \<^verbatim>\<open>Promise.all\<close> of two promises: rejected as soon as one is rejected, fulfilled
  when both are. Of several rejections the model reports the first in the array.
\<close>

definition both :: "'a promise \<Rightarrow> 'b promise \<Rightarrow> ('a \<times> 'b) promise" where
  "both p q = (case p of
       Some (Inl e) \<Rightarrow> Some (Inl e)
     | None \<Rightarrow> (case q of Some (Inl e) \<Rightarrow> Some (Inl e) | _ \<Rightarrow> None)
     | Some (Inr x) \<Rightarrow> (case q of Some (Inl e) \<Rightarrow> Some (Inl e) | None \<Rightarrow> None
          | Some (Inr y) \<Rightarrow> Some (Inr (x, y))))"

text \<open>\<^verbatim>\<open>promise.then(f)\<close> for a callback that does not throw.\<close>

definition then_map :: "('a \<Rightarrow> 'b) \<Rightarrow> 'a promise \<Rightarrow> 'b promise" where
  "then_map f p = (case p of None \<Rightarrow> None | Some (Inl e) \<Rightarrow> Some (Inl e)
     | Some (Inr x) \<Rightarrow> Some (Inr (f x)))"

fun promise_all :: "'a promise list \<Rightarrow> 'a list promise" where
  "promise_all [] = Some (Inr [])"
| "promise_all (p # ps) = then_map (\<lambda>(x, xs). x # xs) (both p (promise_all ps))"

section \<open>The resolver\<close>

text \<open>
  \<^verbatim>\<open>checkCircularDependency\<close>: the \<^verbatim>\<open>do ... while (tree = tree.parent)\<close> loop,
  then the function. The invariant that fails names the \<^verbatim>\<open>src\<close> of the first node.
\<close>

fun circular_from :: "tree \<Rightarrow> string \<Rightarrow> bool" where
  "circular_from (Tree ty am mi sr ds dds ads adds nm ve ma br tp bt pa) filename =
     (if sr = Some filename then True
      else (case pa of None \<Rightarrow> False | Some p \<Rightarrow> circular_from p filename))"

definition checkCircularDependency :: "tree option \<Rightarrow> string \<Rightarrow> error option" where
  "checkCircularDependency tree filename =
     (case tree of None \<Rightarrow> None
      | Some t \<Rightarrow> if circular_from t filename then Some (CircularDependency (src t)) else None)"

text \<open>\<^verbatim>\<open>extend(MISSING_DEPENDENCY, { type, src, parent })\<close>\<close>

definition missing_tree :: "string option \<Rightarrow> string option \<Rightarrow> tree option \<Rightarrow> tree" where
  "missing_tree ty sr pa = Tree ty False True sr [] [] [] []
     JUndefined JUndefined JUndefined JUndefined JUndefined JUndefined pa"

text \<open>The node built from \<^verbatim>\<open>bower.json\<close>.\<close>

definition bower_tree :: "jsval \<Rightarrow> string \<Rightarrow> tree option \<Rightarrow> tree" where
  "bower_tree bowerJson sr pa = Tree (Some ''bower'') False False (Some sr) [] [] [] []
     (field bowerJson ''name'') (field bowerJson ''version'') (field bowerJson ''main'')
     (field bowerJson ''browser'') (field bowerJson ''typings'')
     (field bowerJson ''browserTypings'') pa"

text \<open>The node built from \<^verbatim>\<open>package.json\<close>: \<^verbatim>\<open>main: packageJson.main || 'index.js'\<close>.\<close>

definition npm_tree :: "jsval \<Rightarrow> string \<Rightarrow> tree option \<Rightarrow> tree" where
  "npm_tree packageJson sr pa = Tree (Some ''npm'') False False (Some sr) [] [] [] []
     (field packageJson ''name'') (field packageJson ''version'')
     (if truthy (field packageJson ''main'') then field packageJson ''main''
      else JStr ''index.js'')
     (field packageJson ''browser'') (field packageJson ''typings'')
     (field packageJson ''browserTypings'') pa"

text \<open>The node built from the native config: \<^verbatim>\<open>ambient: !!config.ambient\<close>.\<close>

definition type_tree :: "jsval \<Rightarrow> string \<Rightarrow> tree option \<Rightarrow> tree" where
  "type_tree config sr pa = Tree (Some PROJECT_NAME) (truthy (field config ''ambient''))
     False (Some sr) [] [] [] []
     (field config ''name'') JUndefined (field config ''main'')
     (field config ''browser'') (field config ''typings'')
     (field config ''browserTypings'') pa"

text \<open>
  The \<^verbatim>\<open>src\<close> of a file dependency: an HTTP location as it is, a location under
  an HTTP parent resolved against the parent's \<^verbatim>\<open>src\<close>, any other against the
  working directory.
\<close>

definition file_src :: "env \<Rightarrow> string \<Rightarrow> options \<Rightarrow> tree option \<Rightarrow> string" where
  "file_src env location' options parent' =
     (if isHttp env location' then location'
      else (case parent' of
              None \<Rightarrow> resolve env [cwd options, location']
            | Some p \<Rightarrow>
                (case src p of
                   None \<Rightarrow> resolve env [cwd options, location']
                 | Some psrc \<Rightarrow>
                     if isHttp env psrc then resolveUrl env psrc location'
                     else resolve env [cwd options, location'])))"

text \<open>The node of a definition file: \<^verbatim>\<open>{ type: PROJECT_NAME, typings: src, src, parent }\<close>.\<close>

definition definition_tree :: "string \<Rightarrow> tree option \<Rightarrow> tree" where
  "definition_tree sr pa = Tree (Some PROJECT_NAME) False False (Some sr) [] [] [] []
     JUndefined JUndefined JUndefined JUndefined (JStr sr) JUndefined pa"

text \<open>
  \<^verbatim>\<open>tree.dependencies = ...; tree.devDependencies = ...\<close> and, for the native
  config, the two ambient maps as well.
\<close>

definition set_branches :: "tree \<Rightarrow> tree object \<Rightarrow> tree object \<Rightarrow> tree" where
  "set_branches t ds dds = Tree (type t) (ambient t) (missing t) (src t)
     ds dds (ambientDependencies t) (ambientDevDependencies t)
     (name t) (version t) (main t) (browser t) (typings t) (browserTypings t) (parent t)"

definition set_all_branches ::
  "tree \<Rightarrow> tree object \<Rightarrow> tree object \<Rightarrow> tree object \<Rightarrow> tree object \<Rightarrow> tree" where
  "set_all_branches t ds dds ads adds = Tree (type t) (ambient t) (missing t) (src t)
     ds dds ads adds
     (name t) (version t) (main t) (browser t) (typings t) (browserTypings t) (parent t)"

text \<open>\<^verbatim>\<open>resolveBowerComponentPath\<close>; \<^verbatim>\<open>path.resolve\<close> throws on a non-string.\<close>

definition resolveBowerComponentPath :: "env \<Rightarrow> string \<Rightarrow> error + string" where
  "resolveBowerComponentPath env path =
     (case readJson env (resolve env [path, ''.bowerrc'']) of
        None \<Rightarrow> Inr (resolve env [path, ''bower_components''])
      | Some json \<Rightarrow>
          (let bowerrc = default_object json in
           if nullish bowerrc then Inl TypeError
           else if truthy (field bowerrc ''directory'')
             then (case field bowerrc ''directory'' of
                     JStr directory \<Rightarrow> Inr (resolve env [path, directory])
                   | _ \<Rightarrow> Inl TypeError)
             else Inr (resolve env [path, ''bower_components''])))"

text \<open>Resolve a single dependency object.\<close>

definition resolveDependency_body ::
  "env \<Rightarrow> resolver \<Rightarrow> dependency \<Rightarrow> options \<Rightarrow> tree option \<Rightarrow> tree promise" where
  "resolveDependency_body env r dependency options parent' =
     (if dep_type dependency = ''npm''
        then resolveNpmDependency r (location dependency) options parent'
      else if dep_type dependency = ''bower''
        then resolveBowerDependency r (location dependency) options parent'
      else resolveFileDependency r (location dependency) options parent')"

text \<open>Resolve a dependency in NPM.\<close>

definition resolveNpmDependency_body ::
  "env \<Rightarrow> resolver \<Rightarrow> string \<Rightarrow> options \<Rightarrow> tree option \<Rightarrow> tree promise" where
  "resolveNpmDependency_body env r name' options parent' =
     (case findUp env (cwd options) (join env [''node_modules'', name']) of
        Some modulePath \<Rightarrow>
          if isDefinition env modulePath
            then resolveFileDependency r modulePath options parent'
          else resolveNpmDependencyFrom r modulePath options parent'
      | None \<Rightarrow> Some (Inr (missing_tree (Some ''npm'') None None)))"

text \<open>Resolve a dependency in Bower; a rejected component path is caught.\<close>

definition resolveBowerDependency_body ::
  "env \<Rightarrow> resolver \<Rightarrow> string \<Rightarrow> options \<Rightarrow> tree option \<Rightarrow> tree promise" where
  "resolveBowerDependency_body env r name' options parent' =
     (case resolveBowerComponentPath env (cwd options) of
        Inr componentPath \<Rightarrow>
          (let modulePath = resolve env [componentPath, name'] in
           if isDefinition env modulePath
             then resolveFileDependency r modulePath options parent'
           else resolveBowerDependencyFrom r modulePath componentPath options parent')
      | Inl e \<Rightarrow> Some (Inr (missing_tree (Some ''bower'') None None)))"

text \<open>
  Resolve a local file dependency; a definition file becomes a node without being read.
\<close>

definition resolveFileDependency_body ::
  "env \<Rightarrow> resolver \<Rightarrow> string \<Rightarrow> options \<Rightarrow> tree option \<Rightarrow> tree promise" where
  "resolveFileDependency_body env r location' options parent' =
     (let src' = file_src env location' options parent'
      in if \<not> isDefinition env src' then resolveTypeDependencyFrom r src' options parent'
         else Some (Inr (definition_tree src' parent')))"

text \<open>Resolve bower dependencies from a path: the cycle check, then the read.\<close>

definition resolveBowerDependencyFrom_body ::
  "env \<Rightarrow> resolver \<Rightarrow> string \<Rightarrow> string \<Rightarrow> options \<Rightarrow> tree option \<Rightarrow> tree promise" where
  "resolveBowerDependencyFrom_body env r src' componentPath options parent' =
     (case checkCircularDependency parent' src' of
        Some e \<Rightarrow> Some (Inl e)
      | None \<Rightarrow>
         (case readJson env src' of
            None \<Rightarrow> Some (Inr (missing_tree (Some ''bower'') (Some src') parent'))
          | Some json \<Rightarrow>
             (let bowerJson = default_object json in
              if nullish bowerJson then Some (Inl TypeError)
              else
                (let tree = bower_tree bowerJson src' parent';
                     dependencyMap = extend [own_properties (field bowerJson ''dependencies'')];
                     devDependencyMap = extend [own_properties
                       (if dev options then field bowerJson ''devDependencies'' else JObj [])]
                 in then_map
                      (\<lambda>(dependencies, devDependencies, typedPackage).
                         set_branches tree
                           (extend [dependencies, tree.dependencies typedPackage])
                           (extend [devDependencies, tree.devDependencies typedPackage]))
                      (both (resolveBowerDependencyMap r componentPath dependencyMap options tree)
                        (both (resolveBowerDependencyMap r componentPath devDependencyMap
                                 options tree)
                              (resolveTypeDependencyFrom r (join env [src', ''..'', CONFIG_FILE])
                                 options (Some tree))))))))"

text \<open>One child per key of a bower dependency map.\<close>

definition resolveBowerDependencyMap_body ::
  "env \<Rightarrow> resolver \<Rightarrow> string \<Rightarrow> jsval object \<Rightarrow> options \<Rightarrow> tree \<Rightarrow> tree object promise" where
  "resolveBowerDependencyMap_body env r componentPath dependencies' options parent' =
     (let keys = map fst dependencies' in
      then_map (zipObject keys)
        (promise_all (map (\<lambda>name'.
           (let modulePath = resolve env [componentPath, name', ''bower.json''];
                resolveOptions = options\<lparr>dev := False, ambient := False\<rparr>
            in resolveBowerDependencyFrom r modulePath componentPath resolveOptions
                 (Some parent'))) keys)))"

text \<open>Resolve NPM dependencies from \<^verbatim>\<open>package.json\<close>.\<close>

definition resolveNpmDependencyFrom_body ::
  "env \<Rightarrow> resolver \<Rightarrow> string \<Rightarrow> options \<Rightarrow> tree option \<Rightarrow> tree promise" where
  "resolveNpmDependencyFrom_body env r src' options parent' =
     (case checkCircularDependency parent' src' of
        Some e \<Rightarrow> Some (Inl e)
      | None \<Rightarrow>
         (case readJson env src' of
            None \<Rightarrow> Some (Inr (missing_tree (Some ''npm'') (Some src') parent'))
          | Some json \<Rightarrow>
             (let packageJson = default_object json in
              if nullish packageJson then Some (Inl TypeError)
              else
                (let tree = npm_tree packageJson src' parent';
                     dependencyMap = extend [own_properties (field packageJson ''dependencies''),
                       own_properties (field packageJson ''optionalDependencies'')];
                     devDependencyMap = extend [own_properties
                       (if dev options then field packageJson ''devDependencies'' else JObj [])]
                 in then_map
                      (\<lambda>(dependencies, devDependencies, typedPackage).
                         set_branches tree
                           (extend [dependencies, tree.dependencies typedPackage])
                           (extend [devDependencies, tree.devDependencies typedPackage]))
                      (both (resolveNpmDependencyMap r src' dependencyMap options tree)
                        (both (resolveNpmDependencyMap r src' devDependencyMap options tree)
                              (resolveTypeDependencyFrom r (join env [src', ''..'', CONFIG_FILE])
                                 options (Some tree))))))))"

text \<open>One child per key of an npm dependency map.\<close>

definition resolveNpmDependencyMap_body ::
  "env \<Rightarrow> resolver \<Rightarrow> string \<Rightarrow> jsval object \<Rightarrow> options \<Rightarrow> tree \<Rightarrow> tree object promise" where
  "resolveNpmDependencyMap_body env r src' dependencies' options parent' =
     (let cwd' = dirname env src';
          keys = map fst dependencies' in
      then_map (zipObject keys)
        (promise_all (map (\<lambda>name'.
           (let resolveOptions = options\<lparr>dev := False, ambient := False, cwd := cwd'\<rparr>
            in resolveNpmDependency r (join env [name', ''package.json'']) resolveOptions
                 (Some parent'))) keys)))"

text \<open>Resolve type dependencies from an exact path.\<close>

definition resolveTypeDependencyFrom_body ::
  "env \<Rightarrow> resolver \<Rightarrow> string \<Rightarrow> options \<Rightarrow> tree option \<Rightarrow> tree promise" where
  "resolveTypeDependencyFrom_body env r src' options parent' =
     (case checkCircularDependency parent' src' of
        Some e \<Rightarrow> Some (Inl e)
      | None \<Rightarrow>
         (case readConfigFrom env src' of
            None \<Rightarrow> Some (Inr (missing_tree (Some PROJECT_NAME) (Some src') parent'))
          | Some config \<Rightarrow>
              if nullish config then Some (Inl TypeError)
              else
                (let tree = type_tree config src' parent';
                     dependencyMap = extend [own_properties (field config ''dependencies'')];
                     devDependencyMap = extend [own_properties
                       (if dev options then field config ''devDependencies'' else JObj [])];
                     ambientDependencyMap = extend [own_properties
                       (if options.ambient options then field config ''ambientDependencies''
                        else JObj [])];
                     ambientDevDependencyMap = extend [own_properties
                       (if options.ambient options \<and> dev options
                        then field config ''ambientDevDependencies'' else JObj [])]
                 in then_map
                      (\<lambda>(dependencies, devDependencies, ambientDependencies,
                          ambientDevDependencies).
                         set_all_branches tree dependencies devDependencies ambientDependencies
                           ambientDevDependencies)
                      (both (resolveTypeDependencyMap r src' dependencyMap options tree)
                        (both (resolveTypeDependencyMap r src' devDependencyMap options tree)
                          (both (resolveTypeDependencyMap r src' ambientDependencyMap
                                   options tree)
                                (resolveTypeDependencyMap r src' ambientDevDependencyMap
                                   options tree)))))))"

text \<open>
  The callback of the \<^verbatim>\<open>reduce\<close> over the candidates of one native dependency:
  a candidate is resolved only while the result so far is missing.
\<close>

definition try_candidate ::
  "env \<Rightarrow> resolver \<Rightarrow> string \<Rightarrow> options \<Rightarrow> tree \<Rightarrow> tree promise \<Rightarrow> jsval \<Rightarrow> tree promise" where
  "try_candidate env r cwd' options parent' result dependency =
     (case result of
        Some (Inr tree) \<Rightarrow>
          if missing tree
            then (let resolveOptions = options\<lparr>dev := False, ambient := False, cwd := cwd'\<rparr>
                  in case parseDependency env dependency of
                       None \<Rightarrow> Some (Inl UnsupportedDependency)
                     | Some d \<Rightarrow> resolveDependency r d resolveOptions (Some parent'))
          else Some (Inr tree)
      | _ \<Rightarrow> result)"

text \<open>
  One child per key of a native dependency map: the candidates of the value are
  reduced in order, starting from \<^verbatim>\<open>MISSING_DEPENDENCY\<close>.
\<close>

definition resolveTypeDependencyMap_body ::
  "env \<Rightarrow> resolver \<Rightarrow> string \<Rightarrow> jsval object \<Rightarrow> options \<Rightarrow> tree \<Rightarrow> tree object promise" where
  "resolveTypeDependencyMap_body env r src' dependencies' options parent' =
     (let cwd' = dirname env src';
          keys = map fst dependencies' in
      then_map (zipObject keys)
        (promise_all (map (\<lambda>name'.
           foldl (try_candidate env r cwd' options parent')
             (Some (Inr MISSING_DEPENDENCY))
             (arrify (case get dependencies' name' of Some v \<Rightarrow> v | None \<Rightarrow> JUndefined)))
           keys)))"

text \<open>
  The functions for calls nested at most \<open>n\<close> deep: none returns without fuel, and
  with one more unit each runs its body over the functions one level down.
\<close>

primrec resolver_of :: "env \<Rightarrow> nat \<Rightarrow> resolver" where
  "resolver_of env 0 = \<lparr>
     resolveDependency = \<lambda>_ _ _. None,
     resolveNpmDependency = \<lambda>_ _ _. None,
     resolveBowerDependency = \<lambda>_ _ _. None,
     resolveFileDependency = \<lambda>_ _ _. None,
     resolveBowerDependencyFrom = \<lambda>_ _ _ _. None,
     resolveBowerDependencyMap = \<lambda>_ _ _ _. None,
     resolveNpmDependencyFrom = \<lambda>_ _ _. None,
     resolveNpmDependencyMap = \<lambda>_ _ _ _. None,
     resolveTypeDependencyFrom = \<lambda>_ _ _. None,
     resolveTypeDependencyMap = \<lambda>_ _ _ _. None\<rparr>"
| "resolver_of env (Suc n) = \<lparr>
     resolveDependency = resolveDependency_body env (resolver_of env n),
     resolveNpmDependency = resolveNpmDependency_body env (resolver_of env n),
     resolveBowerDependency = resolveBowerDependency_body env (resolver_of env n),
     resolveFileDependency = resolveFileDependency_body env (resolver_of env n),
     resolveBowerDependencyFrom = resolveBowerDependencyFrom_body env (resolver_of env n),
     resolveBowerDependencyMap = resolveBowerDependencyMap_body env (resolver_of env n),
     resolveNpmDependencyFrom = resolveNpmDependencyFrom_body env (resolver_of env n),
     resolveNpmDependencyMap = resolveNpmDependencyMap_body env (resolver_of env n),
     resolveTypeDependencyFrom = resolveTypeDependencyFrom_body env (resolver_of env n),
     resolveTypeDependencyMap = resolveTypeDependencyMap_body env (resolver_of env n)\<rparr>"

text \<open>The three readers at the starting directory, and their merge.\<close>

definition resolveBowerDependencies :: "nat \<Rightarrow> env \<Rightarrow> options \<Rightarrow> tree promise" where
  "resolveBowerDependencies n env options =
     (case findUp env (cwd options) ''bower.json'' of
        Some bowerJsonPath \<Rightarrow>
          (case resolveBowerComponentPath env (dirname env bowerJsonPath) of
             Inl e \<Rightarrow> Some (Inl e)
           | Inr componentPath \<Rightarrow>
               resolveBowerDependencyFrom (resolver_of env n) bowerJsonPath componentPath options None)
      | None \<Rightarrow> Some (Inr (missing_tree (Some ''bower'') None None)))"

definition resolveNpmDependencies :: "nat \<Rightarrow> env \<Rightarrow> options \<Rightarrow> tree promise" where
  "resolveNpmDependencies n env options =
     (case findUp env (cwd options) ''package.json'' of
        Some packgeJsonPath \<Rightarrow> resolveNpmDependencyFrom (resolver_of env n) packgeJsonPath options None
      | None \<Rightarrow> Some (Inr (missing_tree (Some ''npm'') None None)))"

definition resolveTypeDependencies :: "nat \<Rightarrow> env \<Rightarrow> options \<Rightarrow> tree promise" where
  "resolveTypeDependencies n env options =
     (case findConfigFile env (cwd options) of
        Some path \<Rightarrow> resolveTypeDependencyFrom (resolver_of env n) path options None
      | None \<Rightarrow> Some (Inr MISSING_DEPENDENCY))"

definition resolveDependencies :: "nat \<Rightarrow> env \<Rightarrow> options \<Rightarrow> tree promise" where
  "resolveDependencies n env options =
     then_map mergeDependencies
       (promise_all [resolveBowerDependencies n env options,
                     resolveNpmDependencies n env options,
                     resolveTypeDependencies n env options])"

section \<open>A sample project\<close>

text \<open>
  A project at \<^verbatim>\<open>/p\<close> with a \<^verbatim>\<open>package.json\<close>, a \<^verbatim>\<open>bower.json\<close> and a
  \<^verbatim>\<open>typings.json\<close>, one installed npm package whose manifest begins with a byte-order
  mark, and no installed bower component; one native config is served over HTTP, also
  with a mark. Paths are joined with a slash; nothing is found above the starting
  directory.
\<close>

definition sample_package_json :: jsval where
  "sample_package_json = JObj [(''name'', JStr ''root''),
     (''dependencies'', JObj [(''a'', JStr ''1.0.0'')]),
     (''devDependencies'', JObj [(''b'', JStr ''2.0.0'')])]"

definition sample_a_package_json :: jsval where
  "sample_a_package_json = JObj [(''name'', JStr ''a''),
     (''devDependencies'', JObj [(''z'', JStr ''3.0.0'')])]"

definition sample_bower_json :: jsval where
  "sample_bower_json = JObj [(''name'', JStr ''root''), (''main'', JStr ''root.js''),
     (''dependencies'', JObj [(''c'', JStr ''*'')])]"

definition sample_typings_json :: jsval where
  "sample_typings_json = JObj [(''dependencies'',
     JObj [(''x'', JArr [JStr ''npm:nope'', JStr ''file:x.d.ts'', JStr ''npm:a'']),
           (''c'', JStr ''file:c.d.ts'')])]"

definition sample_files :: "(string \<times> utf16) list" where
  "sample_files =
     [(''/p/package.json'', [1]),
      (''/p/node_modules/a/package.json'', [0xFEFF, 2]),
      (''/p/bower.json'', [3]),
      (''/p/typings.json'', [4])]"

definition sample_parse :: "(utf16 \<times> jsval) list" where
  "sample_parse =
     [([1], sample_package_json), ([2], sample_a_package_json),
      ([3], sample_bower_json), ([4], sample_typings_json),
      ([5], JObj [(''typings'', JStr ''http://example.com/index.d.ts'')])]"

definition sample_dirname :: "string \<Rightarrow> string" where
  "sample_dirname p = rev (tl (dropWhile (\<lambda>c. c \<noteq> CHR ''/'') (rev p)))"

fun sample_join :: "string list \<Rightarrow> string" where
  "sample_join [a, b, c] =
     (if b = ''..'' then sample_dirname a @ ''/'' @ c else a @ ''/'' @ b @ ''/'' @ c)"
| "sample_join [a, b] = a @ ''/'' @ b"
| "sample_join ps = concat ps"

definition sample_parseDependency :: "jsval \<Rightarrow> dependency option" where
  "sample_parseDependency v = (case v of
       JStr s \<Rightarrow> (if take 4 s = ''npm:'' then Some (Dependency ''npm'' (drop 4 s))
                  else if take 5 s = ''file:'' then Some (Dependency ''file'' (drop 5 s))
                  else None)
     | _ \<Rightarrow> None)"

definition sample :: env where
  "sample = \<lparr>
     readFile = map_of sample_files,
     readHttp = (\<lambda>url. if url = ''http://example.com/typings.json'' then Some [0xFEFF, 5]
                      else None),
     parse = (\<lambda>contents path. map_of sample_parse contents),
     findUp = (\<lambda>dir file. if map_of sample_files (dir @ ''/'' @ file) = None then None
                           else Some (dir @ ''/'' @ file)),
     findConfigFile = (\<lambda>dir. if map_of sample_files (dir @ ''/typings.json'') = None then None
                             else Some (dir @ ''/typings.json'')),
     isDefinition = (\<lambda>p. take 5 (rev p) = ''st.d.''),
     isHttp = (\<lambda>p. take 7 p = ''http://''),
     parseDependency = sample_parseDependency,
     resolve = sample_join,
     join = sample_join,
     dirname = sample_dirname,
     resolveUrl = (\<lambda>base location'. location') \<rparr>"

definition sample_options :: options where
  "sample_options = \<lparr>cwd = ''/p'', dev = False, ambient = False\<rparr>"

text \<open>A directory without any manifest.\<close>

definition bare_options :: options where
  "bare_options = \<lparr>cwd = ''/q'', dev = True, ambient = True\<rparr>"

definition sample_root :: tree where
  "sample_root =
     (case resolveDependencies (Suc (Suc (Suc (Suc (Suc (Suc 0)))))) sample sample_options of
        Some (Inr t) \<Rightarrow> t | _ \<Rightarrow> DEFAULT_DEPENDENCY)"

text \<open>The sample parser after the entry \<^verbatim>\<open>b\<close> has been removed from the
  \<^verbatim>\<open>devDependencies\<close> of the root's \<^verbatim>\<open>package.json\<close>.\<close>

definition sample_parse_edited :: "utf16 \<Rightarrow> string \<Rightarrow> jsval option" where
  "sample_parse_edited contents path =
     (if contents = [1]
      then Some (JObj [(''name'', JStr ''root''),
             (''dependencies'', JObj [(''a'', JStr ''1.0.0'')]),
             (''devDependencies'', JObj [])])
      else parse sample contents path)"

text \<open>The options of a caller who asks for everything.\<close>

definition dev_options :: options where
  "dev_options = \<lparr>cwd = ''/p'', dev = True, ambient = True\<rparr>"

section \<open>Notions used in the statements\<close>

text \<open>The six fields that \<^verbatim>\<open>mergeDependencies\<close> takes over together.\<close>

definition entry_fields ::
  "tree \<Rightarrow> jsval \<times> string option \<times> jsval \<times> jsval \<times> jsval \<times> jsval" where
  "entry_fields t = (name t, src t, main t, browser t, typings t, browserTypings t)"

text \<open>A subtree defines an entry field when the field is not \<^verbatim>\<open>undefined\<close>.\<close>

definition defines_entry :: "tree \<Rightarrow> bool" where
  "defines_entry t = (main t \<noteq> JUndefined \<or> browser t \<noteq> JUndefined
     \<or> typings t \<noteq> JUndefined \<or> browserTypings t \<noteq> JUndefined)"

text \<open>The test of the source: one of the four fields holds a string.\<close>

definition defines_string :: "tree \<Rightarrow> bool" where
  "defines_string t = (is_string (main t) \<or> is_string (browser t)
     \<or> is_string (typings t) \<or> is_string (browserTypings t))"

text \<open>
  Three subtrees for the merge: a bower root with a string \<^verbatim>\<open>main\<close>, a missing npm
  root, and a native root whose only entry field is a \<^verbatim>\<open>browser\<close> mapping and which
  has one ambient dev dependency.
\<close>

definition merge_bower :: tree where
  "merge_bower = Tree (Some ''bower'') False False (Some ''/p/bower.json'') [] [] [] []
     (JStr ''root'') JUndefined (JStr ''root.js'') JUndefined JUndefined JUndefined None"

definition merge_child :: tree where
  "merge_child = Tree (Some PROJECT_NAME) False False (Some ''/p/node.d.ts'') [] [] [] []
     JUndefined JUndefined JUndefined JUndefined (JStr ''/p/node.d.ts'') JUndefined None"

definition merge_native :: tree where
  "merge_native = Tree (Some PROJECT_NAME) False False (Some ''/p/typings.json'')
     [] [] [] [(''node'', merge_child)]
     JUndefined JUndefined JUndefined (JObj [(''fs'', JStr ''./browser-fs'')])
     JUndefined JUndefined None"

text \<open>A promise fulfilled with a missing node.\<close>

definition resolves_missing :: "tree promise \<Rightarrow> bool" where
  "resolves_missing p = (case p of Some (Inr t) \<Rightarrow> missing t | _ \<Rightarrow> False)"

text \<open>
  What one candidate of a native dependency resolves to on its own:
  \<^verbatim>\<open>resolveDependency(parseDependency(dependency), resolveOptions, parent)\<close>.
\<close>

definition candidate ::
  "env \<Rightarrow> resolver \<Rightarrow> string \<Rightarrow> options \<Rightarrow> tree \<Rightarrow> jsval \<Rightarrow> tree promise" where
  "candidate env r cwd' options parent' dependency =
     (case parseDependency env dependency of
        None \<Rightarrow> Some (Inl UnsupportedDependency)
      | Some d \<Rightarrow>
          resolveDependency r d (options\<lparr>dev := False, ambient := False, cwd := cwd'\<rparr>)
            (Some parent'))"

text \<open>A node none of whose dev or ambient dependencies were expanded.\<close>

definition unexpanded :: "tree \<Rightarrow> bool" where
  "unexpanded t = (devDependencies t = [] \<and> ambientDependencies t = []
     \<and> ambientDevDependencies t = [])"

text \<open>Options with both flags off.\<close>

definition plain :: "options \<Rightarrow> bool" where
  "plain options = (\<not> dev options \<and> \<not> options.ambient options)"

text \<open>All tree-valued functions of a resolver return unexpanded nodes under plain options.\<close>

definition returns_unexpanded :: "resolver \<Rightarrow> bool" where
  "returns_unexpanded r =
     (\<forall>options p t. plain options \<longrightarrow>
        (\<forall>d. resolveDependency r d options p = Some (Inr t) \<longrightarrow> unexpanded t)
      \<and> (\<forall>s. resolveNpmDependency r s options p = Some (Inr t) \<longrightarrow> unexpanded t)
      \<and> (\<forall>s. resolveBowerDependency r s options p = Some (Inr t) \<longrightarrow> unexpanded t)
      \<and> (\<forall>s. resolveFileDependency r s options p = Some (Inr t) \<longrightarrow> unexpanded t)
      \<and> (\<forall>s c. resolveBowerDependencyFrom r s c options p = Some (Inr t) \<longrightarrow> unexpanded t)
      \<and> (\<forall>s. resolveNpmDependencyFrom r s options p = Some (Inr t) \<longrightarrow> unexpanded t)
      \<and> (\<forall>s. resolveTypeDependencyFrom r s options p = Some (Inr t) \<longrightarrow> unexpanded t))"

text \<open>A manifest with its \<^verbatim>\<open>devDependencies\<close> property taken away.\<close>

definition without_devDependencies :: "jsval \<Rightarrow> jsval" where
  "without_devDependencies j = (case j of
       JObj kvs \<Rightarrow> JObj (filter (\<lambda>(k, v). k \<noteq> ''devDependencies'') kvs)
     | _ \<Rightarrow> j)"

text \<open>Two parsers whose results differ at most in \<^verbatim>\<open>devDependencies\<close>.\<close>

definition same_but_devDependencies ::
  "(utf16 \<Rightarrow> string \<Rightarrow> jsval option) \<Rightarrow> (utf16 \<Rightarrow> string \<Rightarrow> jsval option) \<Rightarrow> bool" where
  "same_but_devDependencies parse' parse0 =
     (\<forall>contents path. map_option without_devDependencies (parse' contents path)
        = map_option without_devDependencies (parse0 contents path))"

text \<open>Two resolvers that return the same whenever \<^verbatim>\<open>dev\<close> is off.\<close>

definition agree :: "resolver \<Rightarrow> resolver \<Rightarrow> bool" where
  "agree r' r =
     (\<forall>options. \<not> dev options \<longrightarrow>
        (\<forall>d p. resolveDependency r' d options p = resolveDependency r d options p)
      \<and> (\<forall>s p. resolveNpmDependency r' s options p = resolveNpmDependency r s options p)
      \<and> (\<forall>s p. resolveBowerDependency r' s options p = resolveBowerDependency r s options p)
      \<and> (\<forall>s p. resolveFileDependency r' s options p = resolveFileDependency r s options p)
      \<and> (\<forall>s c p. resolveBowerDependencyFrom r' s c options p
            = resolveBowerDependencyFrom r s c options p)
      \<and> (\<forall>c ds p. resolveBowerDependencyMap r' c ds options p
            = resolveBowerDependencyMap r c ds options p)
      \<and> (\<forall>s p. resolveNpmDependencyFrom r' s options p = resolveNpmDependencyFrom r s options p)
      \<and> (\<forall>s ds p. resolveNpmDependencyMap r' s ds options p
            = resolveNpmDependencyMap r s ds options p)
      \<and> (\<forall>s p. resolveTypeDependencyFrom r' s options p = resolveTypeDependencyFrom r s options p)
      \<and> (\<forall>s ds p. resolveTypeDependencyMap r' s ds options p
            = resolveTypeDependencyMap r s ds options p))"

text \<open>The \<^verbatim>\<open>src\<close> values met by following \<^verbatim>\<open>parent\<close> links, the node's own first.\<close>

fun chain :: "tree \<Rightarrow> string option list" where
  "chain (Tree ty am mi sr ds dds ads adds nm ve ma br tp bt pa) =
     sr # (case pa of None \<Rightarrow> [] | Some p \<Rightarrow> chain p)"

definition lineage :: "tree option \<Rightarrow> string option list" where
  "lineage pa = (case pa of None \<Rightarrow> [] | Some p \<Rightarrow> chain p)"

text \<open>Every node of a tree has pairwise distinct \<^verbatim>\<open>src\<close> values along its parent links.\<close>

fun chains_distinct :: "tree \<Rightarrow> bool" where
  "chains_distinct (Tree ty am mi sr ds dds ads adds nm ve ma br tp bt pa) =
     (distinct (sr # (case pa of None \<Rightarrow> [] | Some p \<Rightarrow> chain p))
      \<and> list_all (\<lambda>(k, c). chains_distinct c) (ds @ dds @ ads @ adds))"

text \<open>
  What the path helpers outside this file guarantee: a manifest found by name, the
  \<^verbatim>\<open>bower.json\<close> of a component and the config file beside a manifest are not
  definition files.
\<close>

definition manifests_not_definitions :: "env \<Rightarrow> bool" where
  "manifests_not_definitions env =
     ((\<forall>dir p. findUp env dir ''bower.json'' = Some p \<longrightarrow> \<not> isDefinition env p)
    \<and> (\<forall>dir p. findUp env dir ''package.json'' = Some p \<longrightarrow> \<not> isDefinition env p)
    \<and> (\<forall>dir p. findConfigFile env dir = Some p \<longrightarrow> \<not> isDefinition env p)
    \<and> (\<forall>c name'. \<not> isDefinition env (resolve env [c, name', ''bower.json'']))
    \<and> (\<forall>s. \<not> isDefinition env (join env [s, ''..'', CONFIG_FILE])))"

text \<open>A parent whose own chain is distinct and holds manifests only.\<close>

definition manifest_chain :: "env \<Rightarrow> tree option \<Rightarrow> bool" where
  "manifest_chain env pa =
     (distinct (lineage pa)
      \<and> (\<forall>x \<in> set (lineage pa). case x of None \<Rightarrow> False | Some s \<Rightarrow> \<not> isDefinition env s))"

text \<open>The children of a node, in all four maps, have distinct chains.\<close>

definition children_distinct :: "tree \<Rightarrow> bool" where
  "children_distinct t = list_all (\<lambda>(k, c). chains_distinct c)
     (dependencies t @ devDependencies t @ ambientDependencies t @ ambientDevDependencies t)"

text \<open>A resolver all of whose results have distinct chains, under such parents.\<close>

definition keeps_chains_distinct :: "env \<Rightarrow> resolver \<Rightarrow> bool" where
  "keeps_chains_distinct env r =
     (\<forall>options p. manifest_chain env p \<longrightarrow>
        (\<forall>d t. resolveDependency r d options p = Some (Inr t) \<longrightarrow> chains_distinct t)
      \<and> (\<forall>s t. resolveNpmDependency r s options p = Some (Inr t) \<longrightarrow> chains_distinct t)
      \<and> (\<forall>s t. resolveBowerDependency r s options p = Some (Inr t) \<longrightarrow> chains_distinct t)
      \<and> (\<forall>s t. resolveFileDependency r s options p = Some (Inr t) \<longrightarrow> chains_distinct t)
      \<and> (\<forall>s c t. \<not> isDefinition env s \<longrightarrow>
            resolveBowerDependencyFrom r s c options p = Some (Inr t) \<longrightarrow> chains_distinct t)
      \<and> (\<forall>s t. \<not> isDefinition env s \<longrightarrow>
            resolveNpmDependencyFrom r s options p = Some (Inr t) \<longrightarrow> chains_distinct t)
      \<and> (\<forall>s t. \<not> isDefinition env s \<longrightarrow>
            resolveTypeDependencyFrom r s options p = Some (Inr t) \<longrightarrow> chains_distinct t)
      \<and> (\<forall>c ds tree b k t. p = Some tree \<longrightarrow>
            resolveBowerDependencyMap r c ds options tree = Some (Inr b) \<longrightarrow>
            (k, t) \<in> set b \<longrightarrow> chains_distinct t)
      \<and> (\<forall>s ds tree b k t. p = Some tree \<longrightarrow>
            resolveNpmDependencyMap r s ds options tree = Some (Inr b) \<longrightarrow>
            (k, t) \<in> set b \<longrightarrow> chains_distinct t)
      \<and> (\<forall>s ds tree b k t. p = Some tree \<longrightarrow>
            resolveTypeDependencyMap r s ds options tree = Some (Inr b) \<longrightarrow>
            (k, t) \<in> set b \<longrightarrow> chains_distinct t))"

section \<open>Unfolding the resolver one level\<close>

lemma resolver_of_Suc:
  "resolveDependency (resolver_of env (Suc n)) = resolveDependency_body env (resolver_of env n)"
  "resolveNpmDependency (resolver_of env (Suc n)) = resolveNpmDependency_body env (resolver_of env n)"
  "resolveBowerDependency (resolver_of env (Suc n)) = resolveBowerDependency_body env (resolver_of env n)"
  "resolveFileDependency (resolver_of env (Suc n)) = resolveFileDependency_body env (resolver_of env n)"
  "resolveBowerDependencyFrom (resolver_of env (Suc n)) = resolveBowerDependencyFrom_body env (resolver_of env n)"
  "resolveBowerDependencyMap (resolver_of env (Suc n)) = resolveBowerDependencyMap_body env (resolver_of env n)"
  "resolveNpmDependencyFrom (resolver_of env (Suc n)) = resolveNpmDependencyFrom_body env (resolver_of env n)"
  "resolveNpmDependencyMap (resolver_of env (Suc n)) = resolveNpmDependencyMap_body env (resolver_of env n)"
  "resolveTypeDependencyFrom (resolver_of env (Suc n)) = resolveTypeDependencyFrom_body env (resolver_of env n)"
  "resolveTypeDependencyMap (resolver_of env (Suc n)) = resolveTypeDependencyMap_body env (resolver_of env n)"
  by simp_all

lemma resolver_of_0:
  "resolveDependency (resolver_of env 0) d opts p = None"
  "resolveNpmDependency (resolver_of env 0) s opts p = None"
  "resolveBowerDependency (resolver_of env 0) s opts p = None"
  "resolveFileDependency (resolver_of env 0) s opts p = None"
  "resolveBowerDependencyFrom (resolver_of env 0) s c opts p = None"
  "resolveBowerDependencyMap (resolver_of env 0) s ds opts t = None"
  "resolveNpmDependencyFrom (resolver_of env 0) s opts p = None"
  "resolveNpmDependencyMap (resolver_of env 0) s ds opts t = None"
  "resolveTypeDependencyFrom (resolver_of env 0) s opts p = None"
  "resolveTypeDependencyMap (resolver_of env 0) s ds opts t = None"
  by simp_all

declare resolver_of.simps [simp del]

lemmas bodies = resolveDependency_body_def resolveNpmDependency_body_def resolveBowerDependency_body_def
  resolveFileDependency_body_def resolveBowerDependencyFrom_body_def resolveBowerDependencyMap_body_def
  resolveNpmDependencyFrom_body_def resolveNpmDependencyMap_body_def resolveTypeDependencyFrom_body_def
  resolveTypeDependencyMap_body_def try_candidate_def

lemmas evals = resolver_of_Suc resolver_of_0 bodies
  checkCircularDependency_def readConfigFrom_def parseConfig_def readJsonFrom_def
  readFileFrom_def readJson_def parseJson_def stripBom_def default_object_def nullish_def
  field_def extend_def assign_def own_properties_def get_def arrify_def both_def then_map_def zipObject_def CONFIG_FILE_def PROJECT_NAME_def
  npm_tree_def bower_tree_def type_tree_def definition_tree_def file_src_def set_branches_def set_all_branches_def truthy_def missing_tree_def
  resolveBowerComponentPath_def MISSING_DEPENDENCY_def DEFAULT_DEPENDENCY_def
  resolveDependencies_def resolveNpmDependencies_def resolveBowerDependencies_def resolveTypeDependencies_def
  mergeDependencies_def merge_tree_def is_string_def Let_def

lemmas sample_defs = sample_def sample_files_def sample_parse_def sample_dirname_def sample_parseDependency_def
  sample_options_def sample_package_json_def sample_a_package_json_def sample_bower_json_def sample_typings_json_def

section \<open>Objects, promises and merges\<close>

lemma update_fresh: "k \<notin> fst ` set t \<Longrightarrow> AList.update k v t = t @ [(k, v)]"
  by (induction t) auto

lemma assign_fresh:
  "distinct (map fst s) \<Longrightarrow> fst ` set t \<inter> fst ` set s = {} \<Longrightarrow> assign t s = t @ s"
  unfolding assign_def
proof (induction s arbitrary: t)
  case Nil show ?case by simp
next
  case (Cons a s)
  obtain k v where a: "a = (k, v)" by (cases a)
  from Cons.prems have k: "k \<notin> fst ` set t" and d: "distinct (map fst s)"
    and i: "fst ` set (t @ [(k, v)]) \<inter> fst ` set s = {}"
    by (auto simp: a)
  show ?case unfolding a using Cons.IH[OF d i] by (simp add: update_fresh[OF k])
qed

lemma map_of_assign:
  "distinct (map fst s) \<Longrightarrow> map_of (assign t s) = map_of t ++ map_of s"
  unfolding assign_def
proof (induction s arbitrary: t)
  case Nil show ?case by simp
next
  case (Cons a s)
  obtain k v where a: "a = (k, v)" by (cases a)
  from Cons.prems have ks: "map_of s k = None" and d: "distinct (map fst s)"
    by (auto simp: a map_of_eq_None_iff)
  show ?case unfolding a using ks
    by (simp add: Cons.IH[OF d] update_conv' fun_eq_iff map_add_def)
qed

lemma distinct_assign: "distinct (map fst t) \<Longrightarrow> distinct (map fst (assign t s))"
  unfolding assign_def
  by (induction s arbitrary: t) (auto simp: distinct_update)

lemma set_assign: "set (assign t s) \<subseteq> set t \<union> set s"
  unfolding assign_def
proof (induction s arbitrary: t)
  case Nil show ?case by simp
next
  case (Cons a s)
  obtain k v where a: "a = (k, v)" by (cases a)
  have "set (AList.update k v t) \<subseteq> insert (k, v) (set t)"
    by (induction t) auto
  with Cons[of "AList.update k v t"] show ?case unfolding a by auto
qed

lemma keys_assign: "fst ` set (assign t s) = fst ` set t \<union> fst ` set s"
  unfolding assign_def
proof (induction s arbitrary: t)
  case Nil show ?case by simp
next
  case (Cons a s)
  obtain k v where a: "a = (k, v)" by (cases a)
  show ?case unfolding a by (simp add: Cons dom_update)
qed

lemma map_of_extend2:
  "distinct (map fst a) \<Longrightarrow> distinct (map fst b) \<Longrightarrow>
   map_of (extend [a, b]) = map_of a ++ map_of b"
  by (simp add: extend_def map_of_assign)

lemma extend2_empty: "distinct (map fst a) \<Longrightarrow> extend [a, []] = a"
  by (simp add: extend_def assign_fresh)

lemma set_extend2: "set (extend [a, b]) \<subseteq> set a \<union> set b"
  using set_assign[of "assign [] a" b] set_assign[of "[]" a] by (auto simp: extend_def)

lemma distinct_extend: "distinct (map fst (extend xs))"
proof -
  have "distinct (map fst t) \<Longrightarrow> distinct (map fst (foldl assign t xs))" for t
    by (induction xs arbitrary: t) (simp_all add: distinct_assign)
  then show ?thesis by (simp add: extend_def)
qed

lemma distinct_zipObject: "distinct (map fst (zipObject keys vals))"
  by (simp add: zipObject_def distinct_assign)

lemma set_zipObject: "set (zipObject keys vals) \<subseteq> set (zip keys vals)"
  using set_assign[of "[]" "zip keys vals"] by (simp add: zipObject_def)

lemma then_map_Some:
  "then_map f p = Some (Inr y) \<longleftrightarrow> (\<exists>x. p = Some (Inr x) \<and> y = f x)"
  by (auto simp: then_map_def split: option.splits sum.splits)

lemma both_Some:
  "both p q = Some (Inr z) \<longleftrightarrow> (\<exists>x y. p = Some (Inr x) \<and> q = Some (Inr y) \<and> z = (x, y))"
  by (auto simp: both_def split: option.splits sum.splits)

lemma promise_all_Some:
  "promise_all ps = Some (Inr vs) \<longleftrightarrow> ps = map (\<lambda>v. Some (Inr v)) vs"
proof (induction ps arbitrary: vs)
  case Nil show ?case by auto
next
  case (Cons p ps)
  show ?case by (cases vs) (auto simp: then_map_Some both_Some Cons)
qed

lemma promise_all_map:
  assumes "promise_all (map f keys) = Some (Inr vs)"
  shows "length vs = length keys" and "\<And>i. i < length keys \<Longrightarrow> f (keys ! i) = Some (Inr (vs ! i))"
proof -
  from assms have e: "map f keys = map (\<lambda>v. Some (Inr v)) vs" by (simp add: promise_all_Some)
  then show l: "length vs = length keys" by (metis length_map)
  fix i assume "i < length keys"
  with e l show "f (keys ! i) = Some (Inr (vs ! i))" by (metis nth_map)
qed

text \<open>Every entry of a zipped result is the value its key resolved to.\<close>

lemma zipped_entries:
  assumes "then_map (zipObject keys) (promise_all (map f keys)) = Some (Inr branch)"
  shows "\<And>k t. (k, t) \<in> set branch \<Longrightarrow> k \<in> set keys \<and> f k = Some (Inr t)"
    and "distinct (map fst branch)"
    and "\<And>k. k \<in> set keys \<Longrightarrow> \<exists>t. f k = Some (Inr t) \<and> map_of branch k = Some t"
proof -
  from assms obtain vs where vs: "promise_all (map f keys) = Some (Inr vs)"
    and b: "branch = zipObject keys vs" by (auto simp: then_map_Some)
  note pm = promise_all_map[OF vs]
  show d: "distinct (map fst branch)" by (simp add: b distinct_zipObject)
  show m: "k \<in> set keys \<and> f k = Some (Inr t)" if "(k, t) \<in> set branch" for k t
  proof -
    from that set_zipObject[of keys vs] have "(k, t) \<in> set (zip keys vs)" by (auto simp: b)
    then obtain i where "i < length keys" "keys ! i = k" "vs ! i = t"
      by (auto simp: in_set_zip)
    with pm(2)[of i] show ?thesis by auto
  qed
  show "\<exists>t. f k = Some (Inr t) \<and> map_of branch k = Some t" if "k \<in> set keys" for k
  proof -
    from that obtain i where i: "i < length keys" "keys ! i = k" by (auto simp: in_set_conv_nth)
    have "fst ` set (zipObject keys vs) = set keys"
    proof -
      have "fst ` set (zip keys vs) = set (map fst (zip keys vs))" by simp
      also have "\<dots> = set keys" using pm(1) by (simp only: map_fst_zip)
      finally show ?thesis by (simp add: zipObject_def keys_assign)
    qed
    with that have "k \<in> fst ` set (zipObject keys vs)" by simp
    then obtain t where t: "(k, t) \<in> set branch" unfolding b by force
    with m[OF t] d show ?thesis by auto
  qed
qed

lemma entry_fields_merge_tree:
  "entry_fields (merge_tree d t) = (if defines_string t then entry_fields t else entry_fields d)"
  by (simp add: merge_tree_def entry_fields_def defines_string_def Let_def)

lemma entry_fields_foldl:
  "entry_fields (foldl merge_tree d ts) =
     (if filter defines_string ts = [] then entry_fields d
      else entry_fields (last (filter defines_string ts)))"
  by (induction ts rule: rev_induct) (simp_all add: entry_fields_merge_tree)

lemma merge_missing_parent:
  "missing (foldl merge_tree d ts) = missing d \<and> parent (foldl merge_tree d ts) = parent d"
  by (induction ts rule: rev_induct) (simp_all add: merge_tree_def Let_def)

lemma merge_tree_maps:
  "dependencies (merge_tree d t) = extend [dependencies d, dependencies t]"
  "devDependencies (merge_tree d t) = extend [devDependencies d, devDependencies t]"
  "ambientDependencies (merge_tree d t) = extend [ambientDependencies d, ambientDependencies t]"
  by (simp_all add: merge_tree_def Let_def)

lemma extend_from_empty: "distinct (map fst a) \<Longrightarrow> map_of (extend [[], a]) = map_of a"
  by (simp add: map_of_extend2)

text \<open>The three maps that the merge does extend are the key-wise unions.\<close>

lemma merged_maps_union:
  assumes "distinct (map fst (dependencies b))" "distinct (map fst (dependencies np))"
    "distinct (map fst (dependencies ty))"
    "distinct (map fst (devDependencies b))" "distinct (map fst (devDependencies np))"
    "distinct (map fst (devDependencies ty))"
    "distinct (map fst (ambientDependencies b))" "distinct (map fst (ambientDependencies np))"
    "distinct (map fst (ambientDependencies ty))"
  shows "map_of (dependencies (mergeDependencies [b, np, ty]))
       = map_of (dependencies b) ++ map_of (dependencies np) ++ map_of (dependencies ty)"
    and "map_of (devDependencies (mergeDependencies [b, np, ty]))
       = map_of (devDependencies b) ++ map_of (devDependencies np) ++ map_of (devDependencies ty)"
    and "map_of (ambientDependencies (mergeDependencies [b, np, ty]))
       = map_of (ambientDependencies b) ++ map_of (ambientDependencies np)
           ++ map_of (ambientDependencies ty)"
proof -
  have m: "mergeDependencies [b, np, ty]
      = merge_tree (merge_tree (merge_tree DEFAULT_DEPENDENCY b) np) ty"
    by (simp add: mergeDependencies_def)
  have e: "dependencies DEFAULT_DEPENDENCY = []" "devDependencies DEFAULT_DEPENDENCY = []"
    "ambientDependencies DEFAULT_DEPENDENCY = []"
    by (simp_all add: DEFAULT_DEPENDENCY_def)
  show "map_of (dependencies (mergeDependencies [b, np, ty]))
       = map_of (dependencies b) ++ map_of (dependencies np) ++ map_of (dependencies ty)"
    and "map_of (devDependencies (mergeDependencies [b, np, ty]))
       = map_of (devDependencies b) ++ map_of (devDependencies np) ++ map_of (devDependencies ty)"
    and "map_of (ambientDependencies (mergeDependencies [b, np, ty]))
       = map_of (ambientDependencies b) ++ map_of (ambientDependencies np)
           ++ map_of (ambientDependencies ty)"
    using assms unfolding m merge_tree_maps e
    by (simp_all only: map_of_extend2 distinct_extend extend_from_empty)
qed

lemma sample_root_eval:
  "resolveDependencies (Suc (Suc (Suc (Suc (Suc (Suc 0)))))) sample sample_options = Some (Inr sample_root)"
  unfolding sample_root_def
  by (simp add: evals sample_defs)

section \<open>What a manifest node is made of\<close>

lemma field_default_object: "field (default_object j) k = field j k"
  by (simp add: default_object_def field_def)

lemma npm_tree_default_object: "npm_tree (default_object j) = npm_tree j"
  by (simp add: npm_tree_def field_default_object fun_eq_iff)

lemma bower_tree_default_object: "bower_tree (default_object j) = bower_tree j"
  by (simp add: bower_tree_def field_default_object fun_eq_iff)

text \<open>What a node read from \<^verbatim>\<open>package.json\<close> is made of.\<close>

lemma npm_from_body_result:
  assumes "resolveNpmDependencyFrom_body env r src' options parent' = Some (Inr t)"
    and "readJson env src' = Some json"
  shows "\<exists>ds dds typed.
     resolveNpmDependencyMap r src'
       (extend [own_properties (field json ''dependencies''),
                own_properties (field json ''optionalDependencies'')])
       options (npm_tree json src' parent') = Some (Inr ds)
   \<and> resolveNpmDependencyMap r src'
       (extend [own_properties (if dev options then field json ''devDependencies'' else JObj [])])
       options (npm_tree json src' parent') = Some (Inr dds)
   \<and> resolveTypeDependencyFrom r (join env [src', ''..'', CONFIG_FILE]) options
       (Some (npm_tree json src' parent')) = Some (Inr typed)
   \<and> t = set_branches (npm_tree json src' parent')
           (extend [ds, dependencies typed]) (extend [dds, devDependencies typed])"
  using assms
  by (auto simp: resolveNpmDependencyFrom_body_def Let_def then_map_Some both_Some
      field_default_object npm_tree_default_object split: option.splits if_splits)

lemma bower_from_body_result:
  assumes "resolveBowerDependencyFrom_body env r src' componentPath options parent' = Some (Inr t)"
    and "readJson env src' = Some json"
  shows "\<exists>ds dds typed.
     resolveBowerDependencyMap r componentPath
       (extend [own_properties (field json ''dependencies'')])
       options (bower_tree json src' parent') = Some (Inr ds)
   \<and> resolveBowerDependencyMap r componentPath
       (extend [own_properties (if dev options then field json ''devDependencies'' else JObj [])])
       options (bower_tree json src' parent') = Some (Inr dds)
   \<and> resolveTypeDependencyFrom r (join env [src', ''..'', CONFIG_FILE]) options
       (Some (bower_tree json src' parent')) = Some (Inr typed)
   \<and> t = set_branches (bower_tree json src' parent')
           (extend [ds, dependencies typed]) (extend [dds, devDependencies typed])"
  using assms
  by (auto simp: resolveBowerDependencyFrom_body_def Let_def then_map_Some both_Some
      field_default_object bower_tree_default_object split: option.splits if_splits)

text \<open>The map functions, with the keys written out.\<close>

lemma npm_map_body:
  "resolveNpmDependencyMap_body env r s deps options p =
     then_map (zipObject (map fst deps))
       (promise_all (map (\<lambda>name'. resolveNpmDependency r (join env [name', ''package.json''])
            (options\<lparr>dev := False, ambient := False, cwd := dirname env s\<rparr>) (Some p))
          (map fst deps)))"
  by (simp only: resolveNpmDependencyMap_body_def Let_def)

lemma bower_map_body:
  "resolveBowerDependencyMap_body env r c deps options p =
     then_map (zipObject (map fst deps))
       (promise_all (map (\<lambda>name'. resolveBowerDependencyFrom r
            (resolve env [c, name', ''bower.json'']) c
            (options\<lparr>dev := False, ambient := False\<rparr>) (Some p))
          (map fst deps)))"
  by (simp only: resolveBowerDependencyMap_body_def Let_def)

lemma type_map_body:
  "resolveTypeDependencyMap_body env r s deps options p =
     then_map (zipObject (map fst deps))
       (promise_all (map (\<lambda>name'.
           foldl (try_candidate env r (dirname env s) options p) (Some (Inr MISSING_DEPENDENCY))
             (arrify (case get deps name' of Some v \<Rightarrow> v | None \<Rightarrow> JUndefined)))
          (map fst deps)))"
  by (simp only: resolveTypeDependencyMap_body_def Let_def)

text \<open>The maps that the map functions return list each key once.\<close>

lemma npm_map_distinct:
  assumes "resolveNpmDependencyMap (resolver_of env n) s deps options p = Some (Inr b)"
  shows "distinct (map fst b)"
proof (cases n)
  case 0 with assms show ?thesis by (simp add: resolver_of_0)
next
  case (Suc m)
  from assms[unfolded Suc resolver_of_Suc npm_map_body] show ?thesis
    by (rule zipped_entries(2))
qed

lemma bower_map_distinct:
  assumes "resolveBowerDependencyMap (resolver_of env n) s deps options p = Some (Inr b)"
  shows "distinct (map fst b)"
proof (cases n)
  case 0 with assms show ?thesis by (simp add: resolver_of_0)
next
  case (Suc m)
  from assms[unfolded Suc resolver_of_Suc bower_map_body] show ?thesis
    by (rule zipped_entries(2))
qed

lemma type_map_distinct:
  assumes "resolveTypeDependencyMap (resolver_of env n) s deps options p = Some (Inr b)"
  shows "distinct (map fst b)"
proof (cases n)
  case 0 with assms show ?thesis by (simp add: resolver_of_0)
next
  case (Suc m)
  from assms[unfolded Suc resolver_of_Suc type_map_body] show ?thesis
    by (rule zipped_entries(2))
qed

text \<open>What a node read from the native config is made of.\<close>

lemma type_from_body_result:
  assumes "resolveTypeDependencyFrom_body env r s options p = Some (Inr t)"
  shows "(readConfigFrom env s = None \<and> t = missing_tree (Some PROJECT_NAME) (Some s) p)
   \<or> (\<exists>config ds dds ads adds. readConfigFrom env s = Some config
       \<and> resolveTypeDependencyMap r s (extend [own_properties (field config ''dependencies'')])
            options (type_tree config s p) = Some (Inr ds)
       \<and> resolveTypeDependencyMap r s (extend [own_properties
              (if dev options then field config ''devDependencies'' else JObj [])])
            options (type_tree config s p) = Some (Inr dds)
       \<and> resolveTypeDependencyMap r s (extend [own_properties
              (if options.ambient options then field config ''ambientDependencies'' else JObj [])])
            options (type_tree config s p) = Some (Inr ads)
       \<and> resolveTypeDependencyMap r s (extend [own_properties
              (if options.ambient options \<and> dev options
               then field config ''ambientDevDependencies'' else JObj [])])
            options (type_tree config s p) = Some (Inr adds)
       \<and> t = set_all_branches (type_tree config s p) ds dds ads adds)"
  using assms unfolding resolveTypeDependencyFrom_body_def Let_def
  by (simp add: then_map_Some both_Some split: option.splits if_splits)

text \<open>A node of the native config: its maps list each key once, and a missing one has none.\<close>

lemma type_from_maps:
  assumes "resolveTypeDependencyFrom (resolver_of env n) s options p = Some (Inr typed)"
  shows "distinct (map fst (dependencies typed))" "distinct (map fst (devDependencies typed))"
    "missing typed \<Longrightarrow> dependencies typed = [] \<and> devDependencies typed = []"
proof -
  from assms obtain m where n: "n = Suc m" by (cases n) (auto simp: resolver_of_0)
  from assms have "resolveTypeDependencyFrom_body env (resolver_of env m) s options p
      = Some (Inr typed)" by (simp add: n resolver_of_Suc)
  from type_from_body_result[OF this]
  have "distinct (map fst (dependencies typed)) \<and> distinct (map fst (devDependencies typed))
    \<and> (missing typed \<longrightarrow> dependencies typed = [] \<and> devDependencies typed = [])"
  proof (elim disjE exE conjE)
    assume "typed = missing_tree (Some PROJECT_NAME) (Some s) p"
    then show ?thesis by (simp add: missing_tree_def)
  next
    fix config ds dds ads adds
    assume a: "resolveTypeDependencyMap (resolver_of env m) s
        (extend [own_properties (field config ''dependencies'')])
        options (type_tree config s p) = Some (Inr ds)"
      and b: "resolveTypeDependencyMap (resolver_of env m) s (extend [own_properties
              (if dev options then field config ''devDependencies'' else JObj [])])
            options (type_tree config s p) = Some (Inr dds)"
      and t: "typed = set_all_branches (type_tree config s p) ds dds ads adds"
    from type_map_distinct[OF a] type_map_distinct[OF b] show ?thesis
      by (simp add: t set_all_branches_def type_tree_def)
  qed
  then show "distinct (map fst (dependencies typed))" "distinct (map fst (devDependencies typed))"
    "missing typed \<Longrightarrow> dependencies typed = [] \<and> devDependencies typed = []"
    by simp_all
qed

section \<open>Candidates of a native dependency\<close>

lemma try_candidate_missing:
  "missing m \<Longrightarrow> try_candidate env r c options p (Some (Inr m)) d = candidate env r c options p d"
  by (simp add: try_candidate_def candidate_def Let_def)

lemma try_candidate_found:
  "\<not> missing t \<Longrightarrow> foldl (try_candidate env r c options p) (Some (Inr t)) ds = Some (Inr t)"
  by (induction ds) (simp_all add: try_candidate_def)

lemma try_candidates_first_found:
  assumes "missing m" "\<forall>d \<in> set pre. resolves_missing (candidate env r c options p d)"
    and "candidate env r c options p d = Some (Inr t)" "\<not> missing t"
  shows "foldl (try_candidate env r c options p) (Some (Inr m)) (pre @ d # post) = Some (Inr t)"
  using assms(1,2)
proof (induction pre arbitrary: m)
  case Nil
  then show ?case using assms(3,4) by (simp add: try_candidate_missing try_candidate_found)
next
  case (Cons a pre)
  from Cons.prems obtain m' where m': "candidate env r c options p a = Some (Inr m')" "missing m'"
    by (auto simp: resolves_missing_def split: option.splits sum.splits)
  from Cons.prems have "\<forall>d \<in> set pre. resolves_missing (candidate env r c options p d)" by simp
  from Cons.IH[OF m'(2) this] show ?case
    by (simp add: try_candidate_missing[OF Cons.prems(1)] m'(1))
qed

lemma try_candidates_all_missing:
  assumes "missing m" "\<forall>d \<in> set ds. resolves_missing (candidate env r c options p d)"
  shows "\<exists>m'. foldl (try_candidate env r c options p) (Some (Inr m)) ds = Some (Inr m') \<and> missing m'"
  using assms
proof (induction ds arbitrary: m)
  case Nil then show ?case by simp
next
  case (Cons a ds)
  from Cons.prems obtain m' where m': "candidate env r c options p a = Some (Inr m')" "missing m'"
    by (auto simp: resolves_missing_def split: option.splits sum.splits)
  from Cons.prems have "\<forall>d \<in> set ds. resolves_missing (candidate env r c options p d)" by simp
  from Cons.IH[OF m'(2) this] show ?case
    by (simp add: try_candidate_missing[OF Cons.prems(1)] m'(1))
qed

section \<open>Nodes below the root are not expanded\<close>

lemma returns_unexpandedD:
  assumes "returns_unexpanded r" "plain options"
  shows "resolveDependency r d options p = Some (Inr t) \<Longrightarrow> unexpanded t"
    and "resolveNpmDependency r s options p = Some (Inr t) \<Longrightarrow> unexpanded t"
    and "resolveBowerDependency r s options p = Some (Inr t) \<Longrightarrow> unexpanded t"
    and "resolveFileDependency r s options p = Some (Inr t) \<Longrightarrow> unexpanded t"
    and "resolveBowerDependencyFrom r s c options p = Some (Inr t) \<Longrightarrow> unexpanded t"
    and "resolveNpmDependencyFrom r s options p = Some (Inr t) \<Longrightarrow> unexpanded t"
    and "resolveTypeDependencyFrom r s options p = Some (Inr t) \<Longrightarrow> unexpanded t"
  using assms unfolding returns_unexpanded_def by blast+

lemma extend_empty_object [simp]: "extend [own_properties (JObj [])] = []"
  by (simp add: extend_def own_properties_def assign_def)

lemma extend_nils [simp]: "extend [[], []] = []"
  by (simp add: extend_def assign_def)

text \<open>A map function given no keys returns no entries.\<close>

lemma map_of_none:
  "resolveNpmDependencyMap (resolver_of env n) s [] options p = Some (Inr b) \<Longrightarrow> b = []"
  "resolveBowerDependencyMap (resolver_of env n) s [] options p = Some (Inr b) \<Longrightarrow> b = []"
  "resolveTypeDependencyMap (resolver_of env n) s [] options p = Some (Inr b) \<Longrightarrow> b = []"
  by (cases n; simp add: resolver_of_0 resolver_of_Suc npm_map_body bower_map_body type_map_body
      then_map_def zipObject_def assign_def; fail)+

lemma unexpanded_simps [simp]:
  "unexpanded (missing_tree ty sr pa)"
  "unexpanded (definition_tree s' pa)"
  "unexpanded (set_branches (npm_tree j s p) ds dds) \<longleftrightarrow> dds = []"
  "unexpanded (set_branches (bower_tree j s p) ds dds) \<longleftrightarrow> dds = []"
  "unexpanded (set_all_branches t ds dds ads adds) \<longleftrightarrow> dds = [] \<and> ads = [] \<and> adds = []"
  by (auto simp: unexpanded_def missing_tree_def set_branches_def npm_tree_def bower_tree_def
      set_all_branches_def definition_tree_def)

lemma returns_unexpanded_resolver_of: "returns_unexpanded (resolver_of env n)"
proof (induction n)
  case 0
  show ?case by (simp add: returns_unexpanded_def resolver_of_0)
next
  case (Suc n)
  let ?r = "resolver_of env n"
  note IH = returns_unexpandedD[OF Suc]
  show ?case unfolding returns_unexpanded_def resolver_of_Suc
  proof (intro allI impI conjI)
    fix options p t d assume o: "plain options"
      and "resolveDependency_body env ?r d options p = Some (Inr t)"
    then show "unexpanded t"
      by (auto simp: resolveDependency_body_def split: if_splits dest: IH[OF o])
  next
    fix options p t s assume o: "plain options"
      and "resolveNpmDependency_body env ?r s options p = Some (Inr t)"
    then show "unexpanded t"
      by (auto simp: resolveNpmDependency_body_def split: if_splits option.splits
          dest: IH[OF o])
  next
    fix options p t s assume o: "plain options"
      and "resolveBowerDependency_body env ?r s options p = Some (Inr t)"
    then show "unexpanded t"
      by (auto simp: resolveBowerDependency_body_def Let_def split: if_splits sum.splits
          dest: IH[OF o])
  next
    fix options p t s assume o: "plain options"
      and "resolveFileDependency_body env ?r s options p = Some (Inr t)"
    then show "unexpanded t"
      by (auto simp: resolveFileDependency_body_def Let_def split: if_splits
          dest: IH[OF o])
  next
    fix options p t s c assume o: "plain options"
      and r: "resolveBowerDependencyFrom_body env ?r s c options p = Some (Inr t)"
    show "unexpanded t"
    proof (cases "readJson env s")
      case None
      with r show ?thesis
        by (auto simp: resolveBowerDependencyFrom_body_def split: option.splits)
    next
      case (Some json)
      from bower_from_body_result[OF r Some] o obtain ds dds typed where
        a: "resolveBowerDependencyMap ?r c [] options (bower_tree json s p) = Some (Inr dds)"
        and b: "resolveTypeDependencyFrom ?r (join env [s, ''..'', CONFIG_FILE]) options
           (Some (bower_tree json s p)) = Some (Inr typed)"
        and c: "t = set_branches (bower_tree json s p)
           (extend [ds, dependencies typed]) (extend [dds, devDependencies typed])"
        by (auto simp: plain_def)
      from map_of_none(2)[OF a] have "dds = []" .
      moreover from IH(7)[OF o b] have "devDependencies typed = []"
        by (simp add: unexpanded_def)
      ultimately show ?thesis by (simp add: c)
    qed
  next
    fix options p t s assume o: "plain options"
      and r: "resolveNpmDependencyFrom_body env ?r s options p = Some (Inr t)"
    show "unexpanded t"
    proof (cases "readJson env s")
      case None
      with r show ?thesis
        by (auto simp: resolveNpmDependencyFrom_body_def split: option.splits)
    next
      case (Some json)
      from npm_from_body_result[OF r Some] o obtain ds dds typed where
        a: "resolveNpmDependencyMap ?r s [] options (npm_tree json s p) = Some (Inr dds)"
        and b: "resolveTypeDependencyFrom ?r (join env [s, ''..'', CONFIG_FILE]) options
           (Some (npm_tree json s p)) = Some (Inr typed)"
        and c: "t = set_branches (npm_tree json s p)
           (extend [ds, dependencies typed]) (extend [dds, devDependencies typed])"
        by (auto simp: plain_def)
      from map_of_none(1)[OF a] have "dds = []" .
      moreover from IH(7)[OF o b] have "devDependencies typed = []"
        by (simp add: unexpanded_def)
      ultimately show ?thesis by (simp add: c)
    qed
  next
    fix options p t s assume o: "plain options"
      and r: "resolveTypeDependencyFrom_body env ?r s options p = Some (Inr t)"
    from type_from_body_result[OF r] o show "unexpanded t"
      by (auto simp: plain_def dest: map_of_none(3))
  qed
qed

lemma try_candidate_stuck:
  "foldl (try_candidate env r c options p) None ds = None"
  "foldl (try_candidate env r c options p) (Some (Inl e)) ds = Some (Inl e)"
  by (induction ds) (simp_all add: try_candidate_def)

lemma try_candidates_unexpanded:
  assumes "returns_unexpanded r"
  shows "foldl (try_candidate env r c options p) (Some (Inr m)) ds = Some (Inr t) \<Longrightarrow>
    unexpanded m \<Longrightarrow> unexpanded t"
proof (induction ds arbitrary: m)
  case Nil then show ?case by simp
next
  case (Cons d ds)
  let ?o = "options\<lparr>dev := False, ambient := False, cwd := c\<rparr>"
  have o: "plain ?o" by (simp add: plain_def)
  show ?case
  proof (cases "try_candidate env r c options p (Some (Inr m)) d")
    case None
    with Cons.prems show ?thesis by (simp add: try_candidate_stuck)
  next
    case (Some x)
    show ?thesis
    proof (cases x)
      case (Inl e)
      with Some Cons.prems show ?thesis by (simp add: try_candidate_stuck)
    next
      case (Inr m')
      have "unexpanded m'"
      proof (cases "missing m")
        case True
        with Some Inr obtain dd where "resolveDependency r dd ?o (Some p) = Some (Inr m')"
          by (auto simp: try_candidate_def Let_def split: option.splits)
        from returns_unexpandedD(1)[OF assms o this] show ?thesis .
      next
        case False
        with Some Inr Cons.prems(2) show ?thesis by (simp add: try_candidate_def)
      qed
      from Cons.IH[OF _ this] Cons.prems(1) Some Inr show ?thesis by simp
    qed
  qed
qed

lemma map_children_unexpanded:
  "resolveBowerDependencyMap (resolver_of env n) c deps options p = Some (Inr b) \<Longrightarrow>
     (k, t) \<in> set b \<Longrightarrow> unexpanded t"
  "resolveNpmDependencyMap (resolver_of env n) s deps options p = Some (Inr b) \<Longrightarrow>
     (k, t) \<in> set b \<Longrightarrow> unexpanded t"
  "resolveTypeDependencyMap (resolver_of env n) s deps options p = Some (Inr b) \<Longrightarrow>
     (k, t) \<in> set b \<Longrightarrow> unexpanded t"
proof -
  have pl: "plain (options\<lparr>dev := False, ambient := False\<rparr>)"
    "plain (options\<lparr>dev := False, ambient := False, cwd := x\<rparr>)" for x
    by (simp_all add: plain_def)
  {
    assume a: "resolveBowerDependencyMap (resolver_of env n) c deps options p = Some (Inr b)"
      and k: "(k, t) \<in> set b"
    from a obtain m where n: "n = Suc m" by (cases n) (auto simp: resolver_of_0)
    from zipped_entries(1)[OF a[unfolded n resolver_of_Suc bower_map_body] k]
      returns_unexpandedD(5)[OF returns_unexpanded_resolver_of pl(1)]
    show "unexpanded t" by blast
  next
    assume a: "resolveNpmDependencyMap (resolver_of env n) s deps options p = Some (Inr b)"
      and k: "(k, t) \<in> set b"
    from a obtain m where n: "n = Suc m" by (cases n) (auto simp: resolver_of_0)
    from zipped_entries(1)[OF a[unfolded n resolver_of_Suc npm_map_body] k]
      returns_unexpandedD(2)[OF returns_unexpanded_resolver_of pl(2)]
    show "unexpanded t" by blast
  next
    assume a: "resolveTypeDependencyMap (resolver_of env n) s deps options p = Some (Inr b)"
      and k: "(k, t) \<in> set b"
    from a obtain m where n: "n = Suc m" by (cases n) (auto simp: resolver_of_0)
    from zipped_entries(1)[OF a[unfolded n resolver_of_Suc type_map_body] k]
    have "foldl (try_candidate env (resolver_of env m) (dirname env s) options p)
        (Some (Inr MISSING_DEPENDENCY))
        (arrify (case get deps k of Some v \<Rightarrow> v | None \<Rightarrow> JUndefined)) = Some (Inr t)"
      by simp
    from try_candidates_unexpanded[OF returns_unexpanded_resolver_of this]
    show "unexpanded t" by (simp add: unexpanded_def MISSING_DEPENDENCY_def)
  }
qed

lemma map_flags_ignored:
  "resolveBowerDependencyMap (resolver_of env n) c deps options p
     = resolveBowerDependencyMap (resolver_of env n) c deps
         (options\<lparr>dev := False, ambient := False\<rparr>) p"
  "resolveNpmDependencyMap (resolver_of env n) s deps options p
     = resolveNpmDependencyMap (resolver_of env n) s deps
         (options\<lparr>dev := False, ambient := False\<rparr>) p"
  "resolveTypeDependencyMap (resolver_of env n) s deps options p
     = resolveTypeDependencyMap (resolver_of env n) s deps
         (options\<lparr>dev := False, ambient := False\<rparr>) p"
proof -
  have "try_candidate env r x options p = try_candidate env r x
      (options\<lparr>dev := False, ambient := False\<rparr>) p" for r x
    by (simp add: try_candidate_def fun_eq_iff Let_def split: option.splits sum.splits)
  then show "resolveBowerDependencyMap (resolver_of env n) c deps options p
     = resolveBowerDependencyMap (resolver_of env n) c deps
         (options\<lparr>dev := False, ambient := False\<rparr>) p"
  "resolveNpmDependencyMap (resolver_of env n) s deps options p
     = resolveNpmDependencyMap (resolver_of env n) s deps
         (options\<lparr>dev := False, ambient := False\<rparr>) p"
  "resolveTypeDependencyMap (resolver_of env n) s deps options p
     = resolveTypeDependencyMap (resolver_of env n) s deps
         (options\<lparr>dev := False, ambient := False\<rparr>) p"
    by (cases n; simp add: resolver_of_0 resolver_of_Suc bower_map_body npm_map_body
        type_map_body)+
qed

section \<open>Manifests that differ in their dev dependencies only\<close>

lemma agreeD:
  assumes "agree r' r" "\<not> dev options"
  shows "resolveDependency r' d options p = resolveDependency r d options p"
    and "resolveNpmDependency r' s options p = resolveNpmDependency r s options p"
    and "resolveBowerDependency r' s options p = resolveBowerDependency r s options p"
    and "resolveFileDependency r' s options p = resolveFileDependency r s options p"
    and "resolveBowerDependencyFrom r' s c options p = resolveBowerDependencyFrom r s c options p"
    and "resolveBowerDependencyMap r' c ds options t = resolveBowerDependencyMap r c ds options t"
    and "resolveNpmDependencyFrom r' s options p = resolveNpmDependencyFrom r s options p"
    and "resolveNpmDependencyMap r' s ds options t = resolveNpmDependencyMap r s ds options t"
    and "resolveTypeDependencyFrom r' s options p = resolveTypeDependencyFrom r s options p"
    and "resolveTypeDependencyMap r' s ds options t = resolveTypeDependencyMap r s ds options t"
  using assms unfolding agree_def by simp_all

lemma field_without_devDependencies:
  "k \<noteq> ''devDependencies'' \<Longrightarrow> field (without_devDependencies j) k = field j k"
proof (cases j)
  case (JObj kvs)
  assume k: "k \<noteq> ''devDependencies''"
  have "map_of (filter (\<lambda>(k, v). k \<noteq> ''devDependencies'') kvs) k = map_of kvs k"
    using k by (induction kvs) auto
  then show ?thesis by (simp add: JObj field_def without_devDependencies_def)
qed (simp_all add: without_devDependencies_def)

lemma same_fields:
  assumes "without_devDependencies j' = without_devDependencies j"
  shows "k \<noteq> ''devDependencies'' \<Longrightarrow> field j' k = field j k"
    and "default_object j' = JUndefined \<longleftrightarrow> default_object j = JUndefined"
    and "nullish (default_object j') \<longleftrightarrow> nullish (default_object j)"
    and "nullish j' \<longleftrightarrow> nullish j"
proof -
  show "k \<noteq> ''devDependencies'' \<Longrightarrow> field j' k = field j k"
    using field_without_devDependencies[of k j] field_without_devDependencies[of k j'] assms
    by simp
  show "default_object j' = JUndefined \<longleftrightarrow> default_object j = JUndefined"
    "nullish (default_object j') \<longleftrightarrow> nullish (default_object j)"
    "nullish j' \<longleftrightarrow> nullish j"
    using assms
    by (cases j; cases j'; simp add: without_devDependencies_def default_object_def nullish_def)+
qed

lemma same_trees:
  assumes "without_devDependencies j' = without_devDependencies j"
  shows "npm_tree j' = npm_tree j" "bower_tree j' = bower_tree j" "type_tree j' = type_tree j"
  by (simp_all add: npm_tree_def bower_tree_def type_tree_def same_fields(1)[OF assms] fun_eq_iff)

lemma same_reads:
  assumes "same_but_devDependencies parse' (parse env)"
  shows "map_option without_devDependencies (readJson (env\<lparr>parse := parse'\<rparr>) p)
       = map_option without_devDependencies (readJson env p)"
    and "map_option without_devDependencies (readConfigFrom (env\<lparr>parse := parse'\<rparr>) p)
       = map_option without_devDependencies (readConfigFrom env p)"
proof -
  note h = assms[unfolded same_but_devDependencies_def, rule_format]
  show "map_option without_devDependencies (readJson (env\<lparr>parse := parse'\<rparr>) p)
       = map_option without_devDependencies (readJson env p)"
    by (cases "readFile env p") (simp_all add: readJson_def parseJson_def h)
  have c: "readConfigFrom e p = readJsonFrom e p" for e
    by (simp add: readConfigFrom_def parseConfig_def split: option.splits)
  have f: "readFileFrom (env\<lparr>parse := parse'\<rparr>) p = readFileFrom env p"
    by (simp add: readFileFrom_def)
  show "map_option without_devDependencies (readConfigFrom (env\<lparr>parse := parse'\<rparr>) p)
       = map_option without_devDependencies (readConfigFrom env p)"
    unfolding c readJsonFrom_def f
    by (cases "readFileFrom env p") (simp_all add: parseJson_def h)
qed

lemma same_reads_cases:
  assumes "map_option without_devDependencies x' = map_option without_devDependencies x"
  obtains "x' = None" "x = None"
  | j' j where "x' = Some j'" "x = Some j" "without_devDependencies j' = without_devDependencies j"
  using assms by (cases x; cases x'; simp)

lemma same_component_path:
  assumes "same_but_devDependencies parse' (parse env)"
  shows "resolveBowerComponentPath (env\<lparr>parse := parse'\<rparr>) path = resolveBowerComponentPath env path"
proof (rule same_reads_cases[OF same_reads(1)[OF assms, of "resolve env [path, ''.bowerrc'']"]])
  assume "readJson (env\<lparr>parse := parse'\<rparr>) (resolve env [path, ''.bowerrc'']) = None"
    "readJson env (resolve env [path, ''.bowerrc'']) = None"
  then show ?thesis by (simp add: resolveBowerComponentPath_def)
next
  fix j' j
  assume "readJson (env\<lparr>parse := parse'\<rparr>) (resolve env [path, ''.bowerrc'']) = Some j'"
    "readJson env (resolve env [path, ''.bowerrc'']) = Some j"
    and w: "without_devDependencies j' = without_devDependencies j"
  then show ?thesis
    by (simp add: resolveBowerComponentPath_def Let_def field_default_object
        same_fields(1)[OF w] same_fields(3)[OF w] cong: jsval.case_cong)
qed

lemma agree_bodies:
  assumes a: "agree r' r" and s: "same_but_devDependencies parse' (parse env)"
    and o: "\<not> dev options"
  shows "resolveDependency_body (env\<lparr>parse := parse'\<rparr>) r' d options p
       = resolveDependency_body env r d options p"
    and "resolveNpmDependency_body (env\<lparr>parse := parse'\<rparr>) r' l options p
       = resolveNpmDependency_body env r l options p"
    and "resolveBowerDependency_body (env\<lparr>parse := parse'\<rparr>) r' l options p
       = resolveBowerDependency_body env r l options p"
    and "resolveFileDependency_body (env\<lparr>parse := parse'\<rparr>) r' l options p
       = resolveFileDependency_body env r l options p"
    and "resolveBowerDependencyMap_body (env\<lparr>parse := parse'\<rparr>) r' c ds options t
       = resolveBowerDependencyMap_body env r c ds options t"
    and "resolveNpmDependencyMap_body (env\<lparr>parse := parse'\<rparr>) r' l ds options t
       = resolveNpmDependencyMap_body env r l ds options t"
    and "resolveTypeDependencyMap_body (env\<lparr>parse := parse'\<rparr>) r' l ds options t
       = resolveTypeDependencyMap_body env r l ds options t"
proof -
  note ag = agreeD[OF a]
  show "resolveDependency_body (env\<lparr>parse := parse'\<rparr>) r' d options p
       = resolveDependency_body env r d options p"
    by (simp add: resolveDependency_body_def ag o)
  show "resolveNpmDependency_body (env\<lparr>parse := parse'\<rparr>) r' l options p
       = resolveNpmDependency_body env r l options p"
    by (simp add: resolveNpmDependency_body_def ag o split: option.splits)
  show "resolveBowerDependency_body (env\<lparr>parse := parse'\<rparr>) r' l options p
       = resolveBowerDependency_body env r l options p"
    by (simp add: resolveBowerDependency_body_def ag o same_component_path[OF s] Let_def
        split: sum.splits)
  have "file_src (env\<lparr>parse := parse'\<rparr>) l options p = file_src env l options p"
    by (simp add: file_src_def split: option.splits)
  then show "resolveFileDependency_body (env\<lparr>parse := parse'\<rparr>) r' l options p
       = resolveFileDependency_body env r l options p"
    by (simp add: resolveFileDependency_body_def ag o Let_def)
  show "resolveBowerDependencyMap_body (env\<lparr>parse := parse'\<rparr>) r' c ds options t
       = resolveBowerDependencyMap_body env r c ds options t"
    by (simp add: bower_map_body ag)
  show "resolveNpmDependencyMap_body (env\<lparr>parse := parse'\<rparr>) r' l ds options t
       = resolveNpmDependencyMap_body env r l ds options t"
    by (simp add: npm_map_body ag)
  have "try_candidate (env\<lparr>parse := parse'\<rparr>) r' c' options t
      = try_candidate env r c' options t" for c'
    by (simp add: try_candidate_def ag fun_eq_iff Let_def split: option.splits sum.splits)
  then show "resolveTypeDependencyMap_body (env\<lparr>parse := parse'\<rparr>) r' l ds options t
       = resolveTypeDependencyMap_body env r l ds options t"
    by (simp add: type_map_body)
qed

lemma agree_from_bodies:
  assumes a: "agree r' r" and s: "same_but_devDependencies parse' (parse env)"
    and o: "\<not> dev options"
  shows "resolveBowerDependencyFrom_body (env\<lparr>parse := parse'\<rparr>) r' l c options p
       = resolveBowerDependencyFrom_body env r l c options p"
    and "resolveNpmDependencyFrom_body (env\<lparr>parse := parse'\<rparr>) r' l options p
       = resolveNpmDependencyFrom_body env r l options p"
    and "resolveTypeDependencyFrom_body (env\<lparr>parse := parse'\<rparr>) r' l options p
       = resolveTypeDependencyFrom_body env r l options p"
proof -
  note ag = agreeD[OF a o]
  show "resolveBowerDependencyFrom_body (env\<lparr>parse := parse'\<rparr>) r' l c options p
       = resolveBowerDependencyFrom_body env r l c options p"
  proof (rule same_reads_cases[OF same_reads(1)[OF s, of l]])
    assume "readJson (env\<lparr>parse := parse'\<rparr>) l = None" "readJson env l = None"
    then show ?thesis by (simp add: resolveBowerDependencyFrom_body_def split: option.splits)
  next
    fix j' j
    assume r: "readJson (env\<lparr>parse := parse'\<rparr>) l = Some j'" "readJson env l = Some j"
      and w: "without_devDependencies j' = without_devDependencies j"
    show ?thesis
      by (simp add: resolveBowerDependencyFrom_body_def r Let_def ag o field_default_object
          bower_tree_default_object same_fields(1)[OF w] same_fields(3)[OF w] same_trees[OF w]
          split: option.splits)
  qed
  show "resolveNpmDependencyFrom_body (env\<lparr>parse := parse'\<rparr>) r' l options p
       = resolveNpmDependencyFrom_body env r l options p"
  proof (rule same_reads_cases[OF same_reads(1)[OF s, of l]])
    assume "readJson (env\<lparr>parse := parse'\<rparr>) l = None" "readJson env l = None"
    then show ?thesis by (simp add: resolveNpmDependencyFrom_body_def split: option.splits)
  next
    fix j' j
    assume r: "readJson (env\<lparr>parse := parse'\<rparr>) l = Some j'" "readJson env l = Some j"
      and w: "without_devDependencies j' = without_devDependencies j"
    show ?thesis
      by (simp add: resolveNpmDependencyFrom_body_def r Let_def ag o field_default_object
          npm_tree_default_object same_fields(1)[OF w] same_fields(3)[OF w] same_trees[OF w]
          split: option.splits)
  qed
  show "resolveTypeDependencyFrom_body (env\<lparr>parse := parse'\<rparr>) r' l options p
       = resolveTypeDependencyFrom_body env r l options p"
  proof (rule same_reads_cases[OF same_reads(2)[OF s, of l]])
    assume "readConfigFrom (env\<lparr>parse := parse'\<rparr>) l = None" "readConfigFrom env l = None"
    then show ?thesis by (simp add: resolveTypeDependencyFrom_body_def split: option.splits)
  next
    fix j' j
    assume r: "readConfigFrom (env\<lparr>parse := parse'\<rparr>) l = Some j'"
        "readConfigFrom env l = Some j"
      and w: "without_devDependencies j' = without_devDependencies j"
    show ?thesis
      by (simp add: resolveTypeDependencyFrom_body_def r Let_def ag o
          same_fields(1)[OF w] same_fields(4)[OF w] same_trees[OF w]
          split: option.splits)
  qed
qed

lemma agree_resolver_of:
  assumes "same_but_devDependencies parse' (parse env)"
  shows "agree (resolver_of (env\<lparr>parse := parse'\<rparr>) n) (resolver_of env n)"
proof (induction n)
  case 0
  show ?case by (simp add: agree_def resolver_of_0)
next
  case (Suc n)
  show ?case
    unfolding agree_def resolver_of_Suc
    by (intro allI impI conjI)
      (simp_all add: agree_bodies[OF Suc assms] agree_from_bodies[OF Suc assms])
qed

lemma root_devDependencies_unread:
  assumes "\<not> dev options" "same_but_devDependencies parse' (parse env)"
  shows "resolveDependencies n (env\<lparr>parse := parse'\<rparr>) options = resolveDependencies n env options"
proof -
  note ag = agreeD[OF agree_resolver_of[OF assms(2)] assms(1)]
  have "resolveBowerDependencies n (env\<lparr>parse := parse'\<rparr>) options
      = resolveBowerDependencies n env options"
    by (simp add: resolveBowerDependencies_def ag same_component_path[OF assms(2)]
        split: option.splits sum.splits)
  moreover have "resolveNpmDependencies n (env\<lparr>parse := parse'\<rparr>) options
      = resolveNpmDependencies n env options"
    by (simp add: resolveNpmDependencies_def ag split: option.splits)
  moreover have "resolveTypeDependencies n (env\<lparr>parse := parse'\<rparr>) options
      = resolveTypeDependencies n env options"
    by (simp add: resolveTypeDependencies_def ag split: option.splits)
  ultimately show ?thesis by (simp only: resolveDependencies_def)
qed

section \<open>Chains of parent links\<close>

lemma chain_eq: "chain t = src t # lineage (parent t)"
  by (cases t) (simp add: lineage_def)

lemma chains_distinct_eq:
  "chains_distinct t \<longleftrightarrow> distinct (src t # lineage (parent t)) \<and> children_distinct t"
  by (cases t) (simp add: lineage_def children_distinct_def)

lemma lineage_simps [simp]: "lineage None = []" "lineage (Some t) = src t # lineage (parent t)"
  by (simp_all add: lineage_def chain_eq[of t])

lemma circular_from_chain: "circular_from t f \<longleftrightarrow> Some f \<in> set (chain t)"
  by (induction t f rule: circular_from.induct) (auto split: option.splits)

lemma checkCircularDependency_None:
  "checkCircularDependency p s = None \<longleftrightarrow> Some s \<notin> set (lineage p)"
  by (cases p) (simp_all add: checkCircularDependency_def circular_from_chain chain_eq)

lemma keeps_chains_distinctD:
  assumes "keeps_chains_distinct env r" "manifest_chain env p"
  shows "resolveDependency r d options p = Some (Inr t) \<Longrightarrow> chains_distinct t"
    and "resolveNpmDependency r s options p = Some (Inr t) \<Longrightarrow> chains_distinct t"
    and "resolveBowerDependency r s options p = Some (Inr t) \<Longrightarrow> chains_distinct t"
    and "resolveFileDependency r s options p = Some (Inr t) \<Longrightarrow> chains_distinct t"
    and "\<not> isDefinition env s \<Longrightarrow>
         resolveBowerDependencyFrom r s c options p = Some (Inr t) \<Longrightarrow> chains_distinct t"
    and "\<not> isDefinition env s \<Longrightarrow>
         resolveNpmDependencyFrom r s options p = Some (Inr t) \<Longrightarrow> chains_distinct t"
    and "\<not> isDefinition env s \<Longrightarrow>
         resolveTypeDependencyFrom r s options p = Some (Inr t) \<Longrightarrow> chains_distinct t"
    and "p = Some tree \<Longrightarrow> resolveBowerDependencyMap r c ds options tree = Some (Inr b) \<Longrightarrow>
         (k, t) \<in> set b \<Longrightarrow> chains_distinct t"
    and "p = Some tree \<Longrightarrow> resolveNpmDependencyMap r s ds options tree = Some (Inr b) \<Longrightarrow>
         (k, t) \<in> set b \<Longrightarrow> chains_distinct t"
    and "p = Some tree \<Longrightarrow> resolveTypeDependencyMap r s ds options tree = Some (Inr b) \<Longrightarrow>
         (k, t) \<in> set b \<Longrightarrow> chains_distinct t"
proof -
  note h = assms(1)[unfolded keeps_chains_distinct_def, THEN spec, THEN spec, THEN mp,
      OF assms(2), of options]
  note h1 = h[THEN conjunct1]
  note r1 = h[THEN conjunct2]
  note h2 = r1[THEN conjunct1]
  note r2 = r1[THEN conjunct2]
  note h3 = r2[THEN conjunct1]
  note r3 = r2[THEN conjunct2]
  note h4 = r3[THEN conjunct1]
  note r4 = r3[THEN conjunct2]
  note h5 = r4[THEN conjunct1]
  note r5 = r4[THEN conjunct2]
  note h6 = r5[THEN conjunct1]
  note r6 = r5[THEN conjunct2]
  note h7 = r6[THEN conjunct1]
  note r7 = r6[THEN conjunct2]
  note h8 = r7[THEN conjunct1]
  note r8 = r7[THEN conjunct2]
  note h9 = r8[THEN conjunct1]
  note h10 = r8[THEN conjunct2]
  show "resolveDependency r d options p = Some (Inr t) \<Longrightarrow> chains_distinct t"
    using h1 by blast
  show "resolveNpmDependency r s options p = Some (Inr t) \<Longrightarrow> chains_distinct t"
    using h2 by blast
  show "resolveBowerDependency r s options p = Some (Inr t) \<Longrightarrow> chains_distinct t"
    using h3 by blast
  show "resolveFileDependency r s options p = Some (Inr t) \<Longrightarrow> chains_distinct t"
    using h4 by blast
  show "\<not> isDefinition env s \<Longrightarrow>
         resolveBowerDependencyFrom r s c options p = Some (Inr t) \<Longrightarrow> chains_distinct t"
    using h5 by blast
  show "\<not> isDefinition env s \<Longrightarrow>
         resolveNpmDependencyFrom r s options p = Some (Inr t) \<Longrightarrow> chains_distinct t"
    using h6 by blast
  show "\<not> isDefinition env s \<Longrightarrow>
         resolveTypeDependencyFrom r s options p = Some (Inr t) \<Longrightarrow> chains_distinct t"
    using h7 by blast
  show "p = Some tree \<Longrightarrow> resolveBowerDependencyMap r c ds options tree = Some (Inr b) \<Longrightarrow>
         (k, t) \<in> set b \<Longrightarrow> chains_distinct t"
    using h8 by blast
  show "p = Some tree \<Longrightarrow> resolveNpmDependencyMap r s ds options tree = Some (Inr b) \<Longrightarrow>
         (k, t) \<in> set b \<Longrightarrow> chains_distinct t"
    using h9 by blast
  show "p = Some tree \<Longrightarrow> resolveTypeDependencyMap r s ds options tree = Some (Inr b) \<Longrightarrow>
         (k, t) \<in> set b \<Longrightarrow> chains_distinct t"
    using h10 by blast
qed

lemma manifest_chain_None [simp]: "manifest_chain env None"
  by (simp add: manifest_chain_def)

text \<open>A manifest that passed the cycle check extends a manifest chain.\<close>

lemma manifest_chain_Some:
  assumes "manifest_chain env p" "Some s \<notin> set (lineage p)" "\<not> isDefinition env s"
    "src tree = Some s" "parent tree = p"
  shows "manifest_chain env (Some tree)"
  using assms by (auto simp: manifest_chain_def)

lemma distinct_new:
  assumes "manifest_chain env p"
  shows "Some s \<notin> set (lineage p) \<Longrightarrow> distinct (Some s # lineage p)"
    and "isDefinition env s \<Longrightarrow> distinct (Some s # lineage p)"
  using assms by (auto simp: manifest_chain_def)

lemma chains_distinct_leaf:
  "chains_distinct (missing_tree ty sr pa) \<longleftrightarrow> distinct (sr # lineage pa)"
  "chains_distinct (definition_tree s pa) \<longleftrightarrow> distinct (Some s # lineage pa)"
  "chains_distinct MISSING_DEPENDENCY"
  by (simp_all add: missing_tree_def definition_tree_def MISSING_DEPENDENCY_def lineage_def)

lemma tree_src_parent [simp]:
  "src (bower_tree j s p) = Some s" "parent (bower_tree j s p) = p"
  "src (npm_tree j s p) = Some s" "parent (npm_tree j s p) = p"
  "src (type_tree j s p) = Some s" "parent (type_tree j s p) = p"
  by (simp_all add: bower_tree_def npm_tree_def type_tree_def)

lemma children_distinct_iff:
  "children_distinct t \<longleftrightarrow>
     (\<forall>(k, c) \<in> set (dependencies t) \<union> set (devDependencies t)
        \<union> set (ambientDependencies t) \<union> set (ambientDevDependencies t). chains_distinct c)"
  by (auto simp: children_distinct_def list_all_iff)

lemma set_branches_src_parent:
  "src (set_branches t ds dds) = src t" "parent (set_branches t ds dds) = parent t"
  "src (set_all_branches t ds dds ads adds) = src t"
  "parent (set_all_branches t ds dds ads adds) = parent t"
  by (simp_all add: set_branches_def set_all_branches_def)

lemma chains_distinct_set_branches:
  assumes "distinct (src tree # lineage (parent tree))"
    "ambientDependencies tree = []" "ambientDevDependencies tree = []"
    "\<And>k c. (k, c) \<in> set ds \<union> set dds \<Longrightarrow> chains_distinct c"
  shows "chains_distinct (set_branches tree ds dds)"
proof -
  have "children_distinct (set_branches tree ds dds)"
    using assms(2-4) by (auto simp: children_distinct_iff set_branches_def)
  with assms(1) show ?thesis
    by (simp add: chains_distinct_eq[of "set_branches tree ds dds"] set_branches_src_parent)
qed

lemma chains_distinct_set_all_branches:
  assumes "distinct (src tree # lineage (parent tree))"
    "\<And>k c. (k, c) \<in> set ds \<union> set dds \<union> set ads \<union> set adds \<Longrightarrow> chains_distinct c"
  shows "chains_distinct (set_all_branches tree ds dds ads adds)"
proof -
  have "children_distinct (set_all_branches tree ds dds ads adds)"
    using assms(2) by (auto simp: children_distinct_iff set_all_branches_def)
  with assms(1) show ?thesis
    by (simp add: chains_distinct_eq[of "set_all_branches tree ds dds ads adds"]
        set_branches_src_parent)
qed

lemma chains_distinct_children:
  assumes "chains_distinct t"
    "(k, c) \<in> set (dependencies t) \<union> set (devDependencies t)
       \<union> set (ambientDependencies t) \<union> set (ambientDevDependencies t)"
  shows "chains_distinct c"
proof -
  from assms(1) have "children_distinct t" by (simp add: chains_distinct_eq[of t])
  with assms(2) show ?thesis unfolding children_distinct_iff by blast
qed

text \<open>The reduction over candidates keeps whatever holds of every resolved dependency.\<close>

lemma try_candidates_invariant:
  assumes "\<And>d t. resolveDependency r d (options\<lparr>dev := False, ambient := False, cwd := c\<rparr>)
      (Some p) = Some (Inr t) \<Longrightarrow> Q t"
  shows "foldl (try_candidate env r c options p) (Some (Inr m)) ds = Some (Inr t) \<Longrightarrow>
    Q m \<Longrightarrow> Q t"
proof (induction ds arbitrary: m)
  case Nil then show ?case by simp
next
  case (Cons d ds)
  show ?case
  proof (cases "try_candidate env r c options p (Some (Inr m)) d")
    case None
    with Cons.prems show ?thesis by (simp add: try_candidate_stuck)
  next
    case (Some x)
    show ?thesis
    proof (cases x)
      case (Inl e)
      with Some Cons.prems show ?thesis by (simp add: try_candidate_stuck)
    next
      case (Inr m')
      have "Q m'"
      proof (cases "missing m")
        case True
        with Some Inr obtain dd where
          "resolveDependency r dd (options\<lparr>dev := False, ambient := False, cwd := c\<rparr>) (Some p)
            = Some (Inr m')"
          by (auto simp: try_candidate_def Let_def split: option.splits)
        from assms[OF this] show ?thesis .
      next
        case False
        with Some Inr Cons.prems(2) show ?thesis by (simp add: try_candidate_def)
      qed
      from Cons.IH[OF _ this] Cons.prems(1) Some Inr show ?thesis by simp
    qed
  qed
qed

lemma keeps_chains_distinct_resolver_of:
  assumes m: "manifests_not_definitions env"
  shows "keeps_chains_distinct env (resolver_of env n)"
proof (induction n)
  case 0
  show ?case by (simp add: keeps_chains_distinct_def resolver_of_0)
next
  case (Suc n)
  let ?r = "resolver_of env n"
  note IH = keeps_chains_distinctD[OF Suc]
  note md = m[unfolded manifests_not_definitions_def]
  have bower_json: "\<not> isDefinition env (resolve env [c, k, ''bower.json''])" for c k
    using md by blast
  have beside: "\<not> isDefinition env (join env [s, ''..'', CONFIG_FILE])" for s
    using md by blast
  show ?case unfolding keeps_chains_distinct_def resolver_of_Suc
  proof (intro allI impI conjI)
    fix options p d t assume p: "manifest_chain env p"
      and "resolveDependency_body env ?r d options p = Some (Inr t)"
    then show "chains_distinct t"
      by (auto simp: resolveDependency_body_def split: if_splits dest: IH(1-4)[OF p])
  next
    fix options p s t assume p: "manifest_chain env p"
      and "resolveNpmDependency_body env ?r s options p = Some (Inr t)"
    then show "chains_distinct t"
      by (auto simp: resolveNpmDependency_body_def chains_distinct_leaf
          split: if_splits option.splits dest: IH(4,6)[OF p])
  next
    fix options p s t assume p: "manifest_chain env p"
      and "resolveBowerDependency_body env ?r s options p = Some (Inr t)"
    then show "chains_distinct t"
      by (auto simp: resolveBowerDependency_body_def Let_def chains_distinct_leaf
          split: if_splits sum.splits dest: IH(4,5)[OF p])
  next
    fix options p s t assume p: "manifest_chain env p"
      and "resolveFileDependency_body env ?r s options p = Some (Inr t)"
    then show "chains_distinct t"
      by (auto simp: resolveFileDependency_body_def Let_def chains_distinct_leaf
          split: if_splits dest: IH(7)[OF p] distinct_new(2)[OF p])
  next
    fix options p s c t assume p: "manifest_chain env p" and s: "\<not> isDefinition env s"
      and r: "resolveBowerDependencyFrom_body env ?r s c options p = Some (Inr t)"
    from r have ck: "Some s \<notin> set (lineage p)"
      by (auto simp: resolveBowerDependencyFrom_body_def
          simp flip: checkCircularDependency_None split: option.splits)
    from p have dl: "distinct (lineage p)" by (simp add: manifest_chain_def)
    show "chains_distinct t"
    proof (cases "readJson env s")
      case None
      with r have "t = missing_tree (Some ''bower'') (Some s) p"
        by (auto simp: resolveBowerDependencyFrom_body_def split: option.splits)
      then show ?thesis using ck dl by (simp add: chains_distinct_leaf)
    next
      case (Some json)
      let ?tree = "bower_tree json s p"
      from bower_from_body_result[OF r Some] obtain ds dds typed where
        a: "resolveBowerDependencyMap ?r c
             (extend [own_properties (field json ''dependencies'')]) options ?tree
             = Some (Inr ds)"
        and b: "resolveBowerDependencyMap ?r c
             (extend [own_properties (if dev options then field json ''devDependencies''
                else JObj [])]) options ?tree = Some (Inr dds)"
        and ty: "resolveTypeDependencyFrom ?r (join env [s, ''..'', CONFIG_FILE]) options
             (Some ?tree) = Some (Inr typed)"
        and t: "t = set_branches ?tree
             (extend [ds, dependencies typed]) (extend [dds, devDependencies typed])"
        by blast
      have q: "manifest_chain env (Some ?tree)"
        by (rule manifest_chain_Some[OF p ck s]) simp_all
      have typed: "chains_distinct typed" by (rule IH(7)[OF q beside ty])
      have "chains_distinct c'"
        if "(k, c') \<in> set (extend [ds, dependencies typed])
              \<union> set (extend [dds, devDependencies typed])" for k c'
        using that set_extend2[of ds "dependencies typed"]
          set_extend2[of dds "devDependencies typed"]
          IH(8)[OF q refl a] IH(8)[OF q refl b] chains_distinct_children[OF typed]
        by blast
      then show ?thesis unfolding t
        by (intro chains_distinct_set_branches)
          (simp_all add: ck dl, simp_all add: bower_tree_def)
    qed
  next
    fix options p s t assume p: "manifest_chain env p" and s: "\<not> isDefinition env s"
      and r: "resolveNpmDependencyFrom_body env ?r s options p = Some (Inr t)"
    from r have ck: "Some s \<notin> set (lineage p)"
      by (auto simp: resolveNpmDependencyFrom_body_def
          simp flip: checkCircularDependency_None split: option.splits)
    from p have dl: "distinct (lineage p)" by (simp add: manifest_chain_def)
    show "chains_distinct t"
    proof (cases "readJson env s")
      case None
      with r have "t = missing_tree (Some ''npm'') (Some s) p"
        by (auto simp: resolveNpmDependencyFrom_body_def split: option.splits)
      then show ?thesis using ck dl by (simp add: chains_distinct_leaf)
    next
      case (Some json)
      let ?tree = "npm_tree json s p"
      from npm_from_body_result[OF r Some] obtain ds dds typed where
        a: "resolveNpmDependencyMap ?r s
             (extend [own_properties (field json ''dependencies''),
                      own_properties (field json ''optionalDependencies'')]) options ?tree
             = Some (Inr ds)"
        and b: "resolveNpmDependencyMap ?r s
             (extend [own_properties (if dev options then field json ''devDependencies''
                else JObj [])]) options ?tree = Some (Inr dds)"
        and ty: "resolveTypeDependencyFrom ?r (join env [s, ''..'', CONFIG_FILE]) options
             (Some ?tree) = Some (Inr typed)"
        and t: "t = set_branches ?tree
             (extend [ds, dependencies typed]) (extend [dds, devDependencies typed])"
        by blast
      have q: "manifest_chain env (Some ?tree)"
        by (rule manifest_chain_Some[OF p ck s]) simp_all
      have typed: "chains_distinct typed" by (rule IH(7)[OF q beside ty])
      have "chains_distinct c'"
        if "(k, c') \<in> set (extend [ds, dependencies typed])
              \<union> set (extend [dds, devDependencies typed])" for k c'
        using that set_extend2[of ds "dependencies typed"]
          set_extend2[of dds "devDependencies typed"]
          IH(9)[OF q refl a] IH(9)[OF q refl b] chains_distinct_children[OF typed]
        by blast
      then show ?thesis unfolding t
        by (intro chains_distinct_set_branches)
          (simp_all add: ck dl, simp_all add: npm_tree_def)
    qed
  next
    fix options p s t assume p: "manifest_chain env p" and s: "\<not> isDefinition env s"
      and r: "resolveTypeDependencyFrom_body env ?r s options p = Some (Inr t)"
    from r have ck: "Some s \<notin> set (lineage p)"
      by (auto simp: resolveTypeDependencyFrom_body_def
          simp flip: checkCircularDependency_None split: option.splits)
    from p have dl: "distinct (lineage p)" by (simp add: manifest_chain_def)
    from type_from_body_result[OF r] show "chains_distinct t"
    proof (elim disjE exE conjE)
      assume "t = missing_tree (Some PROJECT_NAME) (Some s) p"
      then show ?thesis using ck dl by (simp add: chains_distinct_leaf)
    next
      fix config ds dds ads adds
      let ?tree = "type_tree config s p"
      assume a: "resolveTypeDependencyMap ?r s
            (extend [own_properties (field config ''dependencies'')]) options ?tree
            = Some (Inr ds)"
        and b: "resolveTypeDependencyMap ?r s (extend [own_properties
              (if dev options then field config ''devDependencies'' else JObj [])])
            options ?tree = Some (Inr dds)"
        and c: "resolveTypeDependencyMap ?r s (extend [own_properties
              (if options.ambient options then field config ''ambientDependencies''
               else JObj [])])
            options ?tree = Some (Inr ads)"
        and d: "resolveTypeDependencyMap ?r s (extend [own_properties
              (if options.ambient options \<and> dev options
               then field config ''ambientDevDependencies'' else JObj [])])
            options ?tree = Some (Inr adds)"
        and t: "t = set_all_branches ?tree ds dds ads adds"
      have q: "manifest_chain env (Some ?tree)"
        by (rule manifest_chain_Some[OF p ck s]) simp_all
      have "chains_distinct c'"
        if "(k, c') \<in> set ds \<union> set dds \<union> set ads \<union> set adds" for k c'
        using that IH(10)[OF q refl a] IH(10)[OF q refl b] IH(10)[OF q refl c]
          IH(10)[OF q refl d]
        by blast
      then show ?thesis unfolding t
        by (intro chains_distinct_set_all_branches) (simp_all add: ck dl)
    qed
  next
    fix options p c ds tree b k t
    assume p: "manifest_chain env p" and e: "p = Some tree"
      and a: "resolveBowerDependencyMap_body env ?r c ds options tree = Some (Inr b)"
      and k: "(k, t) \<in> set b"
    from zipped_entries(1)[OF a[unfolded bower_map_body] k]
    show "chains_distinct t"
      using IH(5)[OF p bower_json] e by blast
  next
    fix options p s ds tree b k t
    assume p: "manifest_chain env p" and e: "p = Some tree"
      and a: "resolveNpmDependencyMap_body env ?r s ds options tree = Some (Inr b)"
      and k: "(k, t) \<in> set b"
    from zipped_entries(1)[OF a[unfolded npm_map_body] k]
    show "chains_distinct t"
      using IH(2)[OF p] e by blast
  next
    fix options p s ds tree b k t
    assume p: "manifest_chain env p" and e: "p = Some tree"
      and a: "resolveTypeDependencyMap_body env ?r s ds options tree = Some (Inr b)"
      and k: "(k, t) \<in> set b"
    from zipped_entries(1)[OF a[unfolded type_map_body] k]
    have f: "foldl (try_candidate env ?r (dirname env s) options tree)
        (Some (Inr MISSING_DEPENDENCY))
        (arrify (case get ds k of Some v \<Rightarrow> v | None \<Rightarrow> JUndefined)) = Some (Inr t)"
      by simp
    show "chains_distinct t"
      by (rule try_candidates_invariant[OF _ f])
        (use IH(1)[OF p] e in blast, simp add: chains_distinct_leaf)
  qed
qed

lemma merge_tree_children:
  assumes "children_distinct d" "chains_distinct t"
  shows "children_distinct (merge_tree d t)" "parent (merge_tree d t) = parent d"
proof -
  from assms(2) have ct: "children_distinct t" by (simp add: chains_distinct_eq[of t])
  show "children_distinct (merge_tree d t)"
    using assms(1) ct set_extend2[of "dependencies d" "dependencies t"]
      set_extend2[of "devDependencies d" "devDependencies t"]
      set_extend2[of "ambientDependencies d" "ambientDependencies t"]
    unfolding children_distinct_iff
    by (simp add: merge_tree_def Let_def) blast
  show "parent (merge_tree d t) = parent d"
    by (simp add: merge_tree_def Let_def)
qed

lemma merge_chains_distinct:
  assumes "\<forall>t \<in> set ts. chains_distinct t"
  shows "chains_distinct (mergeDependencies ts)"
proof -
  have "children_distinct (foldl merge_tree d ts) \<and> parent (foldl merge_tree d ts) = parent d"
    if "children_distinct d" for d
    using assms that
  proof (induction ts rule: rev_induct)
    case Nil then show ?case by simp
  next
    case (snoc t ts)
    then show ?case by (simp add: merge_tree_children)
  qed
  moreover have "children_distinct DEFAULT_DEPENDENCY" "parent DEFAULT_DEPENDENCY = None"
    by (simp_all add: children_distinct_def DEFAULT_DEPENDENCY_def)
  ultimately have "children_distinct (mergeDependencies ts)"
    "parent (mergeDependencies ts) = None"
    by (simp_all add: mergeDependencies_def)
  then show ?thesis unfolding chains_distinct_eq[of "mergeDependencies ts"] by simp
qed

lemma resolved_chains_distinct:
  assumes m: "manifests_not_definitions env"
    and r: "resolveDependencies n env options = Some (Inr t)"
  shows "chains_distinct t"
proof -
  note k = keeps_chains_distinctD[OF keeps_chains_distinct_resolver_of[OF m, of n]
      manifest_chain_None]
  note md = m[unfolded manifests_not_definitions_def]
  from r obtain b np ty where
    b: "resolveBowerDependencies n env options = Some (Inr b)"
    and np: "resolveNpmDependencies n env options = Some (Inr np)"
    and ty: "resolveTypeDependencies n env options = Some (Inr ty)"
    and t: "t = mergeDependencies [b, np, ty]"
    by (auto simp: resolveDependencies_def then_map_Some both_Some)
  have "chains_distinct b"
  proof (cases "findUp env (cwd options) ''bower.json''")
    case None
    with b show ?thesis by (auto simp: resolveBowerDependencies_def chains_distinct_leaf)
  next
    case (Some p)
    with md have "\<not> isDefinition env p" by blast
    with b Some k(5) show ?thesis
      by (auto simp: resolveBowerDependencies_def split: sum.splits)
  qed
  moreover have "chains_distinct np"
  proof (cases "findUp env (cwd options) ''package.json''")
    case None
    with np show ?thesis by (auto simp: resolveNpmDependencies_def chains_distinct_leaf)
  next
    case (Some p)
    with md have "\<not> isDefinition env p" by blast
    with np Some k(6) show ?thesis
      by (auto simp: resolveNpmDependencies_def)
  qed
  moreover have "chains_distinct ty"
  proof (cases "findConfigFile env (cwd options)")
    case None
    with ty show ?thesis by (auto simp: resolveTypeDependencies_def chains_distinct_leaf)
  next
    case (Some p)
    with md have "\<not> isDefinition env p" by blast
    with ty Some k(7) show ?thesis
      by (auto simp: resolveTypeDependencies_def)
  qed
  ultimately show ?thesis unfolding t by (intro merge_chains_distinct) simp
qed

lemma circular_rejected:
  assumes "Some s \<in> set (chain p)"
  shows "resolveBowerDependencyFrom (resolver_of env (Suc n)) s c options (Some p)
       = Some (Inl (CircularDependency (src p)))"
    and "resolveNpmDependencyFrom (resolver_of env (Suc n)) s options (Some p)
       = Some (Inl (CircularDependency (src p)))"
    and "resolveTypeDependencyFrom (resolver_of env (Suc n)) s options (Some p)
       = Some (Inl (CircularDependency (src p)))"
proof -
  from assms have "checkCircularDependency (Some p) s = Some (CircularDependency (src p))"
    by (simp add: checkCircularDependency_def circular_from_chain)
  then show "resolveBowerDependencyFrom (resolver_of env (Suc n)) s c options (Some p)
       = Some (Inl (CircularDependency (src p)))"
    and "resolveNpmDependencyFrom (resolver_of env (Suc n)) s options (Some p)
       = Some (Inl (CircularDependency (src p)))"
    and "resolveTypeDependencyFrom (resolver_of env (Suc n)) s options (Some p)
       = Some (Inl (CircularDependency (src p)))"
    by (simp_all add: resolver_of_Suc resolveBowerDependencyFrom_body_def
        resolveNpmDependencyFrom_body_def resolveTypeDependencyFrom_body_def)
qed

lemma sample_manifests_not_definitions: "manifests_not_definitions sample"
  by (simp add: manifests_not_definitions_def sample_def sample_dirname_def CONFIG_FILE_def
      PROJECT_NAME_def)

section \<open>Facts about the sample project\<close>

lemma sample_parse_edited_same:
  "same_but_devDependencies sample_parse_edited (parse sample)"
  by (simp add: same_but_devDependencies_def sample_parse_edited_def sample_def sample_parse_def
      sample_package_json_def without_devDependencies_def)

section \<open>The merge of the three subtrees\<close>

text \<open>
  C1. The claim asks that each of the four dependency maps of the merged root be the
  key-wise union of the subtrees' maps. The source extends \<^verbatim>\<open>dependencies\<close>,
  \<^verbatim>\<open>devDependencies\<close> and \<^verbatim>\<open>ambientDependencies\<close> and has no such line for
  \<^verbatim>\<open>ambientDevDependencies\<close>: whatever the subtrees hold, the merged root's
  \<^verbatim>\<open>ambientDevDependencies\<close> is empty. At the input below the native subtree has the
  entry \<^verbatim>\<open>node\<close> and the merged root has not.
\<close>

theorem merged_ambientDevDependencies_dropped:
  "ambientDevDependencies (mergeDependencies trees) = []
   \<and> get (ambientDevDependencies merge_native) ''node'' = Some merge_child
   \<and> get (ambientDevDependencies (mergeDependencies
          [missing_tree (Some ''bower'') None None, missing_tree (Some ''npm'') None None,
           merge_native])) ''node'' = None"
proof -
  have "ambientDevDependencies (foldl merge_tree d ts) = ambientDevDependencies d" for d ts
    by (induction ts rule: rev_induct) (simp_all add: merge_tree_def Let_def)
  then have "ambientDevDependencies (mergeDependencies ts) = []" for ts
    by (simp add: mergeDependencies_def DEFAULT_DEPENDENCY_def)
  then show ?thesis by (simp add: get_def merge_native_def)
qed

text \<open>
  C2, as the code has it. The entry fields (\<^verbatim>\<open>name\<close>, \<^verbatim>\<open>src\<close>, \<^verbatim>\<open>main\<close>,
  \<^verbatim>\<open>browser\<close>, \<^verbatim>\<open>typings\<close>, \<^verbatim>\<open>browserTypings\<close>) of the merged node are those of
  the last subtree in which one of \<^verbatim>\<open>main\<close>, \<^verbatim>\<open>browser\<close>, \<^verbatim>\<open>typings\<close>,
  \<^verbatim>\<open>browserTypings\<close> holds a string, and are undefined when there is no such subtree.
  A subtree without such a string, and so also a subtree that defines none of the four,
  leaves the six fields as they were.
\<close>

theorem merge_last_string_entry_wins:
  "entry_fields (mergeDependencies trees) =
     (if filter defines_string trees = []
      then (JUndefined, None, JUndefined, JUndefined, JUndefined, JUndefined)
      else entry_fields (last (filter defines_string trees)))
   \<and> (\<not> defines_string t \<longrightarrow> entry_fields (merge_tree d t) = entry_fields d)
   \<and> (\<not> defines_entry t \<longrightarrow> entry_fields (merge_tree d t) = entry_fields d)"
proof -
  have "defines_string t \<Longrightarrow> defines_entry t" for t
    by (auto simp: defines_string_def defines_entry_def is_string_def)
  then show ?thesis
    by (auto simp: mergeDependencies_def entry_fields_foldl entry_fields_merge_tree)
       (simp_all add: entry_fields_def DEFAULT_DEPENDENCY_def)
qed

text \<open>The same for a bower root followed by a missing npm root.\<close>

theorem merge_last_string_entry_wins_witness:
  "\<not> defines_entry (missing_tree (Some ''npm'') None None)
   \<and> \<not> defines_string (missing_tree (Some ''npm'') None None)
   \<and> entry_fields (merge_tree merge_bower (missing_tree (Some ''npm'') None None)) = entry_fields merge_bower
   \<and> entry_fields (mergeDependencies [merge_bower, missing_tree (Some ''npm'') None None]) = entry_fields merge_bower"
  using merge_last_string_entry_wins[of "[merge_bower, missing_tree (Some ''npm'') None None]"
     "missing_tree (Some ''npm'') None None" merge_bower]
  by (simp add: defines_entry_def defines_string_def missing_tree_def merge_bower_def is_string_def)

text \<open>
  With "defines" read as "is not undefined" the statement fails: a native subtree whose
  only entry field is a \<^verbatim>\<open>browser\<close> mapping comes last and defines \<^verbatim>\<open>browser\<close>,
  yet the merged node keeps the entry fields of the bower subtree.
\<close>

theorem merge_defined_entry_counterexample:
  "defines_entry merge_native
   \<and> main (mergeDependencies [merge_bower, missing_tree (Some ''npm'') None None, merge_native])
       = JStr ''root.js''
   \<and> main merge_native = JUndefined
   \<and> entry_fields (mergeDependencies
         [merge_bower, missing_tree (Some ''npm'') None None, merge_native])
       \<noteq> entry_fields merge_native"
  by (simp add: defines_entry_def merge_native_def merge_bower_def missing_tree_def
      mergeDependencies_def merge_tree_def is_string_def Let_def DEFAULT_DEPENDENCY_def
      entry_fields_def)

text \<open>
  C10. The root that \<^verbatim>\<open>resolveDependencies\<close> returns is never missing and has no
  parent: this holds of every merge, and when no manifest is found at all the call still
  returns, with the merge of three missing subtrees.
\<close>

theorem merged_root_not_missing:
  "(resolveDependencies n env options = Some (Inr merged) \<longrightarrow> \<not> missing merged \<and> parent merged = None)
   \<and> \<not> missing (mergeDependencies trees) \<and> parent (mergeDependencies trees) = None
   \<and> (findUp env (cwd options) ''bower.json'' = None
        \<and> findUp env (cwd options) ''package.json'' = None
        \<and> findConfigFile env (cwd options) = None
      \<longrightarrow> resolveDependencies n env options =
            Some (Inr (mergeDependencies [missing_tree (Some ''bower'') None None,
                    missing_tree (Some ''npm'') None None, MISSING_DEPENDENCY])))"
proof -
  have m: "\<not> missing (mergeDependencies ts) \<and> parent (mergeDependencies ts) = None" for ts
    by (simp add: mergeDependencies_def merge_missing_parent DEFAULT_DEPENDENCY_def)
  have "resolveDependencies n env options = Some (Inr merged) \<Longrightarrow> \<exists>ts. merged = mergeDependencies ts"
    by (auto simp: resolveDependencies_def then_map_Some)
  then have a: "resolveDependencies n env options = Some (Inr merged) \<longrightarrow>
      \<not> missing merged \<and> parent merged = None"
    using m by auto
  have b: "findUp env (cwd options) ''bower.json'' = None
        \<and> findUp env (cwd options) ''package.json'' = None
        \<and> findConfigFile env (cwd options) = None
      \<longrightarrow> resolveDependencies n env options =
            Some (Inr (mergeDependencies [missing_tree (Some ''bower'') None None,
                    missing_tree (Some ''npm'') None None, MISSING_DEPENDENCY]))"
    by (simp add: resolveDependencies_def resolveBowerDependencies_def resolveNpmDependencies_def
        resolveTypeDependencies_def both_def then_map_def)
  from a b m show ?thesis by simp
qed

text \<open>The same for the sample project, and for a directory without manifests.\<close>

theorem merged_root_not_missing_witness:
  "resolveDependencies (Suc (Suc (Suc (Suc (Suc (Suc 0)))))) sample sample_options = Some (Inr sample_root)
   \<and> \<not> missing sample_root \<and> parent sample_root = None
   \<and> findUp sample (cwd bare_options) ''bower.json'' = None
   \<and> findUp sample (cwd bare_options) ''package.json'' = None
   \<and> findConfigFile sample (cwd bare_options) = None
   \<and> (\<exists>merged. resolveDependencies 0 sample bare_options = Some (Inr merged) \<and> \<not> missing merged)"
proof -
  have h: "findUp sample (cwd bare_options) ''bower.json'' = None
   \<and> findUp sample (cwd bare_options) ''package.json'' = None
   \<and> findConfigFile sample (cwd bare_options) = None"
    by (simp add: sample_def sample_files_def bare_options_def)
  from merged_root_not_missing[of "Suc (Suc (Suc (Suc (Suc (Suc 0)))))" sample sample_options sample_root "[]"]
    merged_root_not_missing[of 0 sample bare_options sample_root
      "[missing_tree (Some ''bower'') None None, missing_tree (Some ''npm'') None None, MISSING_DEPENDENCY]"]
    sample_root_eval h
  show ?thesis by simp
qed

section \<open>The readers at the starting directory\<close>

text \<open>
  C4. The claim asks that each reader answer a manifest that is not found with a missing
  node carrying the reader's own tag. The npm and bower readers do. The native reader
  returns \<^verbatim>\<open>extend(MISSING_DEPENDENCY)\<close>, whose \<^verbatim>\<open>type\<close> is undefined, where the
  claim asks for the project name.
\<close>

theorem missing_native_config_has_no_type:
  "resolveTypeDependencies n (env\<lparr>findConfigFile := \<lambda>dir. None\<rparr>) options = Some (Inr MISSING_DEPENDENCY)
   \<and> type MISSING_DEPENDENCY = None
   \<and> missing MISSING_DEPENDENCY
   \<and> resolveNpmDependencies n (env\<lparr>findUp := \<lambda>dir file. None\<rparr>) options =
       Some (Inr (missing_tree (Some ''npm'') None None))
   \<and> resolveBowerDependencies n (env\<lparr>findUp := \<lambda>dir file. None\<rparr>) options =
       Some (Inr (missing_tree (Some ''bower'') None None))
   \<and> type (missing_tree (Some ''npm'') None None) = Some ''npm''
   \<and> type (missing_tree (Some ''bower'') None None) = Some ''bower''"
  by (simp add: resolveTypeDependencies_def resolveNpmDependencies_def resolveBowerDependencies_def
      MISSING_DEPENDENCY_def missing_tree_def)

section \<open>Byte-order marks\<close>

text \<open>
  C8, as the code has it. \<^verbatim>\<open>readFileFrom\<close> returns the text as it was read. The JSON
  readers \<^verbatim>\<open>readJsonFrom\<close> and \<^verbatim>\<open>readJson\<close> remove one leading byte-order mark and
  hand the rest to the parser.
\<close>

theorem json_readers_strip_bom:
  "(readFileFrom env from = Some contents \<longrightarrow>
      readJsonFrom env from =
        parseJson env (if take 1 contents = [0xFEFF] then drop 1 contents else contents) from)
   \<and> (readFile env path = Some contents \<longrightarrow>
      readJson env path =
        parseJson env (if take 1 contents = [0xFEFF] then drop 1 contents else contents) path)
   \<and> readFileFrom env from = (if isHttp env from then readHttp env from else readFile env from)"
proof -
  have s: "stripBom contents = (if take 1 contents = [0xFEFF] then drop 1 contents else contents)"
    by (cases contents) (simp_all add: stripBom_def)
  have "readJsonFrom env from = parseJson env (stripBom contents) from"
    if "readFileFrom env from = Some contents"
    using that by (simp add: readJsonFrom_def)
  moreover have "readJson env path = parseJson env (stripBom contents) path"
    if "readFile env path = Some contents"
    using that by (simp add: readJson_def)
  ultimately show ?thesis
    unfolding s by (simp add: readFileFrom_def)
qed

text \<open>The same for the two marked files of the sample project.\<close>

theorem json_readers_strip_bom_witness:
  "readFileFrom sample ''http://example.com/typings.json'' = Some [0xFEFF, 5]
   \<and> readJsonFrom sample ''http://example.com/typings.json'' = parseJson sample [5] ''http://example.com/typings.json''
   \<and> readFile sample ''/p/node_modules/a/package.json'' = Some [0xFEFF, 2]
   \<and> readJson sample ''/p/node_modules/a/package.json'' = Some sample_a_package_json"
proof -
  have a: "readFileFrom sample ''http://example.com/typings.json'' = Some [0xFEFF, 5]"
    by (simp add: readFileFrom_def sample_def)
  have b: "readFile sample ''/p/node_modules/a/package.json'' = Some [0xFEFF, 2]"
    by (simp add: sample_def sample_files_def)
  from json_readers_strip_bom[of sample "''http://example.com/typings.json''" "[0xFEFF, 5]"
      "''/p/node_modules/a/package.json''"]
    json_readers_strip_bom[of sample "''http://example.com/typings.json''" "[0xFEFF, 2]"
      "''/p/node_modules/a/package.json''"] a b
  show ?thesis by (simp add: parseJson_def sample_def sample_parse_def)
qed

text \<open>
  The text that \<^verbatim>\<open>readFileFrom\<close> returns still begins with the mark, over HTTP and
  from the local file system, where stripping would have removed it.
\<close>

theorem readFileFrom_keeps_bom_counterexample:
  "readFileFrom sample ''http://example.com/typings.json'' = Some [0xFEFF, 5]
   \<and> readFileFrom sample ''/p/node_modules/a/package.json'' = Some [0xFEFF, 2]
   \<and> stripBom [0xFEFF, 5] = [5] \<and> stripBom [0xFEFF, 2] = [2]"
  by (simp add: readFileFrom_def sample_def sample_files_def stripBom_def)

section \<open>Cycles\<close>

text \<open>
  C3. A manifest whose path is the \<^verbatim>\<open>src\<close> of the parent or of one of its ancestors
  is rejected with the circular-dependency error, whatever the files hold: the check
  comes before the read. Consequently every node of a resolved tree has pairwise
  distinct \<^verbatim>\<open>src\<close> values along its parent links; a definition file is made a node
  without the check, and is no manifest's path as long as manifests are not definition
  files.
\<close>

theorem no_circular_chains:
  "(Some src' \<in> set (chain p) \<longrightarrow>
      resolveBowerDependencyFrom (resolver_of env (Suc n)) src' c options (Some p)
        = Some (Inl (CircularDependency (src p)))
    \<and> resolveNpmDependencyFrom (resolver_of env (Suc n)) src' options (Some p)
        = Some (Inl (CircularDependency (src p)))
    \<and> resolveTypeDependencyFrom (resolver_of env (Suc n)) src' options (Some p)
        = Some (Inl (CircularDependency (src p))))
   \<and> (manifests_not_definitions env \<and> resolveDependencies n env options = Some (Inr t)
      \<longrightarrow> chains_distinct t)"
  using circular_rejected resolved_chains_distinct by blast

text \<open>
  The same for the sample project: its native config under its own overlay is rejected
  for either path of the chain, and the resolved tree has distinct chains.
\<close>

theorem no_circular_chains_witness:
  "Some ''/p/typings.json'' \<in> set (chain (type_tree sample_typings_json ''/p/typings.json''
       (Some (npm_tree sample_package_json ''/p/package.json'' None))))
   \<and> Some ''/p/package.json'' \<in> set (chain (type_tree sample_typings_json ''/p/typings.json''
       (Some (npm_tree sample_package_json ''/p/package.json'' None))))
   \<and> resolveTypeDependencyFrom (resolver_of sample (Suc 0)) ''/p/typings.json'' sample_options
       (Some (type_tree sample_typings_json ''/p/typings.json''
          (Some (npm_tree sample_package_json ''/p/package.json'' None))))
       = Some (Inl (CircularDependency (Some ''/p/typings.json'')))
   \<and> resolveNpmDependencyFrom (resolver_of sample (Suc 0)) ''/p/package.json'' sample_options
       (Some (type_tree sample_typings_json ''/p/typings.json''
          (Some (npm_tree sample_package_json ''/p/package.json'' None))))
       = Some (Inl (CircularDependency (Some ''/p/typings.json'')))
   \<and> manifests_not_definitions sample
   \<and> resolveDependencies (Suc (Suc (Suc (Suc (Suc (Suc 0)))))) sample sample_options
       = Some (Inr sample_root)
   \<and> chains_distinct sample_root"
proof -
  let ?p = "type_tree sample_typings_json ''/p/typings.json''
       (Some (npm_tree sample_package_json ''/p/package.json'' None))"
  have a: "Some ''/p/typings.json'' \<in> set (chain ?p)" "Some ''/p/package.json'' \<in> set (chain ?p)"
    by (simp_all add: type_tree_def npm_tree_def)
  have s: "src ?p = Some ''/p/typings.json''" by (simp add: type_tree_def)
  from no_circular_chains[where src' = "''/p/typings.json''" and p = ?p and env = sample
        and n = 0 and options = sample_options]
    no_circular_chains[where src' = "''/p/package.json''" and p = ?p and env = sample
        and n = 0 and options = sample_options]
    no_circular_chains[where env = sample and n = "Suc (Suc (Suc (Suc (Suc (Suc 0)))))"
        and options = sample_options and t = sample_root]
    a s sample_manifests_not_definitions sample_root_eval
  show ?thesis by simp
qed

section \<open>Nodes read from manifests\<close>

text \<open>
  C9. A node that the npm resolver builds from a \<^verbatim>\<open>package.json\<close> it has read has a
  \<^verbatim>\<open>main\<close>: the manifest's own when that is truthy, \<^verbatim>\<open>index.js\<close> otherwise. So
  \<^verbatim>\<open>main\<close> is never undefined on such a node, which is the condition of the branch
  that fails for want of an entry.
\<close>

theorem npm_main_defined:
  assumes "readJson env src' = Some json"
    and "resolveNpmDependencyFrom (resolver_of env n) src' options parent' = Some (Inr t)"
  shows "main t = (if truthy (field json ''main'') then field json ''main'' else JStr ''index.js'')
     \<and> main t \<noteq> JUndefined \<and> truthy (main t) \<and> \<not> missing t"
proof -
  from assms(2) obtain m where n: "n = Suc m" by (cases n) (auto simp: resolver_of_0)
  from assms(2) have "resolveNpmDependencyFrom_body env (resolver_of env m) src' options parent'
      = Some (Inr t)"
    by (simp add: n resolver_of_Suc)
  from npm_from_body_result[OF this assms(1)] obtain ds dds where
    "t = set_branches (npm_tree json src' parent') ds dds" by blast
  then show ?thesis
    by (auto simp: set_branches_def npm_tree_def truthy_def)
qed

text \<open>The same for the installed package of the sample project, which names no main.\<close>

theorem npm_main_defined_witness:
  "readJson sample ''/p/node_modules/a/package.json'' = Some sample_a_package_json
   \<and> (\<exists>t. resolveNpmDependencyFrom (resolver_of sample (Suc (Suc 0)))
            ''/p/node_modules/a/package.json'' sample_options None = Some (Inr t)
          \<and> main t = JStr ''index.js'')"
proof -
  have a: "readJson sample ''/p/node_modules/a/package.json'' = Some sample_a_package_json"
    by (simp add: evals sample_defs)
  obtain t where b: "resolveNpmDependencyFrom (resolver_of sample (Suc (Suc 0)))
            ''/p/node_modules/a/package.json'' sample_options None = Some (Inr t)"
    by (simp add: evals sample_defs)
  from npm_main_defined[OF a b] have "main t = JStr ''index.js''"
    by (simp add: sample_a_package_json_def field_def truthy_def)
  with a b show ?thesis by blast
qed

text \<open>
  C7. The \<^verbatim>\<open>dependencies\<close> of an npm or bower node are the ecosystem's own resolved
  dependencies overridden key by key with those of the native config read from the
  manifest's directory, and likewise the \<^verbatim>\<open>devDependencies\<close>; when that config is
  missing, both maps are the ecosystem's own.
\<close>

theorem overlay_over_ecosystem_maps:
  "(readJson env src' = Some json
    \<and> resolveNpmDependencyFrom (resolver_of env (Suc n)) src' options parent' = Some (Inr t) \<longrightarrow>
    (\<exists>ds dds typed.
       resolveNpmDependencyMap (resolver_of env n) src'
         (extend [own_properties (field json ''dependencies''),
                  own_properties (field json ''optionalDependencies'')])
         options (npm_tree json src' parent') = Some (Inr ds)
     \<and> resolveNpmDependencyMap (resolver_of env n) src'
         (extend [own_properties (if dev options then field json ''devDependencies'' else JObj [])])
         options (npm_tree json src' parent') = Some (Inr dds)
     \<and> resolveTypeDependencyFrom (resolver_of env n) (join env [src', ''..'', CONFIG_FILE]) options
         (Some (npm_tree json src' parent')) = Some (Inr typed)
     \<and> map_of (dependencies t) = map_of ds ++ map_of (dependencies typed)
     \<and> map_of (devDependencies t) = map_of dds ++ map_of (devDependencies typed)
     \<and> (missing typed \<longrightarrow> dependencies t = ds \<and> devDependencies t = dds)))
   \<and> (readJson env bsrc = Some bjson
    \<and> resolveBowerDependencyFrom (resolver_of env (Suc n)) bsrc componentPath options parent'
        = Some (Inr bt) \<longrightarrow>
    (\<exists>ds dds typed.
       resolveBowerDependencyMap (resolver_of env n) componentPath
         (extend [own_properties (field bjson ''dependencies'')])
         options (bower_tree bjson bsrc parent') = Some (Inr ds)
     \<and> resolveBowerDependencyMap (resolver_of env n) componentPath
         (extend [own_properties (if dev options then field bjson ''devDependencies'' else JObj [])])
         options (bower_tree bjson bsrc parent') = Some (Inr dds)
     \<and> resolveTypeDependencyFrom (resolver_of env n) (join env [bsrc, ''..'', CONFIG_FILE]) options
         (Some (bower_tree bjson bsrc parent')) = Some (Inr typed)
     \<and> map_of (dependencies bt) = map_of ds ++ map_of (dependencies typed)
     \<and> map_of (devDependencies bt) = map_of dds ++ map_of (devDependencies typed)
     \<and> (missing typed \<longrightarrow> dependencies bt = ds \<and> devDependencies bt = dds)))"
proof (intro conjI impI; elim conjE)
  assume j: "readJson env src' = Some json"
    and r: "resolveNpmDependencyFrom (resolver_of env (Suc n)) src' options parent' = Some (Inr t)"
  from r have "resolveNpmDependencyFrom_body env (resolver_of env n) src' options parent'
      = Some (Inr t)" by (simp add: resolver_of_Suc)
  from npm_from_body_result[OF this j] obtain ds dds typed where
      a: "resolveNpmDependencyMap (resolver_of env n) src'
         (extend [own_properties (field json ''dependencies''),
                  own_properties (field json ''optionalDependencies'')])
         options (npm_tree json src' parent') = Some (Inr ds)"
    and b: "resolveNpmDependencyMap (resolver_of env n) src'
         (extend [own_properties (if dev options then field json ''devDependencies'' else JObj [])])
         options (npm_tree json src' parent') = Some (Inr dds)"
    and c: "resolveTypeDependencyFrom (resolver_of env n) (join env [src', ''..'', CONFIG_FILE]) options
         (Some (npm_tree json src' parent')) = Some (Inr typed)"
    and t: "t = set_branches (npm_tree json src' parent')
           (extend [ds, dependencies typed]) (extend [dds, devDependencies typed])"
    by blast
  note d = npm_map_distinct[OF a] npm_map_distinct[OF b] type_from_maps[OF c]
  have "map_of (dependencies t) = map_of ds ++ map_of (dependencies typed)"
    "map_of (devDependencies t) = map_of dds ++ map_of (devDependencies typed)"
    "missing typed \<longrightarrow> dependencies t = ds \<and> devDependencies t = dds"
    using d by (simp_all add: t set_branches_def map_of_extend2 extend2_empty)
  with a b c show "\<exists>ds dds typed.
       resolveNpmDependencyMap (resolver_of env n) src'
         (extend [own_properties (field json ''dependencies''),
                  own_properties (field json ''optionalDependencies'')])
         options (npm_tree json src' parent') = Some (Inr ds)
     \<and> resolveNpmDependencyMap (resolver_of env n) src'
         (extend [own_properties (if dev options then field json ''devDependencies'' else JObj [])])
         options (npm_tree json src' parent') = Some (Inr dds)
     \<and> resolveTypeDependencyFrom (resolver_of env n) (join env [src', ''..'', CONFIG_FILE]) options
         (Some (npm_tree json src' parent')) = Some (Inr typed)
     \<and> map_of (dependencies t) = map_of ds ++ map_of (dependencies typed)
     \<and> map_of (devDependencies t) = map_of dds ++ map_of (devDependencies typed)
     \<and> (missing typed \<longrightarrow> dependencies t = ds \<and> devDependencies t = dds)"
    by blast
next
  assume j: "readJson env bsrc = Some bjson"
    and r: "resolveBowerDependencyFrom (resolver_of env (Suc n)) bsrc componentPath options parent'
        = Some (Inr bt)"
  from r have "resolveBowerDependencyFrom_body env (resolver_of env n) bsrc componentPath options
      parent' = Some (Inr bt)" by (simp add: resolver_of_Suc)
  from bower_from_body_result[OF this j] obtain ds dds typed where
      a: "resolveBowerDependencyMap (resolver_of env n) componentPath
         (extend [own_properties (field bjson ''dependencies'')])
         options (bower_tree bjson bsrc parent') = Some (Inr ds)"
    and b: "resolveBowerDependencyMap (resolver_of env n) componentPath
         (extend [own_properties (if dev options then field bjson ''devDependencies'' else JObj [])])
         options (bower_tree bjson bsrc parent') = Some (Inr dds)"
    and c: "resolveTypeDependencyFrom (resolver_of env n) (join env [bsrc, ''..'', CONFIG_FILE]) options
         (Some (bower_tree bjson bsrc parent')) = Some (Inr typed)"
    and t: "bt = set_branches (bower_tree bjson bsrc parent')
           (extend [ds, dependencies typed]) (extend [dds, devDependencies typed])"
    by blast
  note d = bower_map_distinct[OF a] bower_map_distinct[OF b] type_from_maps[OF c]
  have "map_of (dependencies bt) = map_of ds ++ map_of (dependencies typed)"
    "map_of (devDependencies bt) = map_of dds ++ map_of (devDependencies typed)"
    "missing typed \<longrightarrow> dependencies bt = ds \<and> devDependencies bt = dds"
    using d by (simp_all add: t set_branches_def map_of_extend2 extend2_empty)
  with a b c show "\<exists>ds dds typed.
       resolveBowerDependencyMap (resolver_of env n) componentPath
         (extend [own_properties (field bjson ''dependencies'')])
         options (bower_tree bjson bsrc parent') = Some (Inr ds)
     \<and> resolveBowerDependencyMap (resolver_of env n) componentPath
         (extend [own_properties (if dev options then field bjson ''devDependencies'' else JObj [])])
         options (bower_tree bjson bsrc parent') = Some (Inr dds)
     \<and> resolveTypeDependencyFrom (resolver_of env n) (join env [bsrc, ''..'', CONFIG_FILE]) options
         (Some (bower_tree bjson bsrc parent')) = Some (Inr typed)
     \<and> map_of (dependencies bt) = map_of ds ++ map_of (dependencies typed)
     \<and> map_of (devDependencies bt) = map_of dds ++ map_of (devDependencies typed)
     \<and> (missing typed \<longrightarrow> dependencies bt = ds \<and> devDependencies bt = dds)"
    by blast
qed

text \<open>The same for the two root manifests of the sample project, whose directory has a
  native config.\<close>

theorem overlay_over_ecosystem_maps_witness:
  "readJson sample ''/p/package.json'' = Some sample_package_json
   \<and> readJson sample ''/p/bower.json'' = Some sample_bower_json
   \<and> (\<exists>t bt. resolveNpmDependencyFrom (resolver_of sample (Suc (Suc (Suc (Suc (Suc 0))))))
                 ''/p/package.json'' sample_options None = Some (Inr t)
        \<and> resolveBowerDependencyFrom (resolver_of sample (Suc (Suc (Suc (Suc (Suc 0))))))
                 ''/p/bower.json'' ''/p/bower_components'' sample_options None = Some (Inr bt)
        \<and> (\<exists>ds typed.
              resolveTypeDependencyFrom (resolver_of sample (Suc (Suc (Suc (Suc 0)))))
                (join sample [''/p/package.json'', ''..'', CONFIG_FILE]) sample_options
                (Some (npm_tree sample_package_json ''/p/package.json'' None)) = Some (Inr typed)
            \<and> map_of (dependencies t) = map_of ds ++ map_of (dependencies typed))
        \<and> (\<exists>ds typed.
              resolveTypeDependencyFrom (resolver_of sample (Suc (Suc (Suc (Suc 0)))))
                (join sample [''/p/bower.json'', ''..'', CONFIG_FILE]) sample_options
                (Some (bower_tree sample_bower_json ''/p/bower.json'' None)) = Some (Inr typed)
            \<and> map_of (dependencies bt) = map_of ds ++ map_of (dependencies typed)))"
proof -
  have a: "readJson sample ''/p/package.json'' = Some sample_package_json"
    by (simp add: readJson_def parseJson_def stripBom_def sample_def sample_files_def
        sample_parse_def)
  have b: "readJson sample ''/p/bower.json'' = Some sample_bower_json"
    by (simp add: readJson_def parseJson_def stripBom_def sample_def sample_files_def
        sample_parse_def)
  obtain t where t: "resolveNpmDependencyFrom (resolver_of sample (Suc (Suc (Suc (Suc (Suc 0))))))
                 ''/p/package.json'' sample_options None = Some (Inr t)"
    by (simp add: evals sample_defs)
  obtain bt where bt: "resolveBowerDependencyFrom (resolver_of sample (Suc (Suc (Suc (Suc (Suc 0))))))
                 ''/p/bower.json'' ''/p/bower_components'' sample_options None = Some (Inr bt)"
    by (simp add: evals sample_defs)
  from overlay_over_ecosystem_maps[of sample "''/p/package.json''" sample_package_json
      "Suc (Suc (Suc (Suc 0)))" sample_options None t "''/p/bower.json''" sample_bower_json
      "''/p/bower_components''" bt] a b t bt
  show ?thesis by blast
qed

text \<open>
  C5. The entry of a native dependency whose value is a list is the tree of the first
  candidate, in list order, that resolves to a node that is not missing, whatever comes
  after it in the list; when every candidate resolves to a missing node the entry is a
  missing node, and for the empty list it is \<^verbatim>\<open>MISSING_DEPENDENCY\<close>.
\<close>

theorem first_found_candidate_wins:
  assumes "resolveTypeDependencyMap (resolver_of env (Suc n)) src' deps options parent' = Some (Inr branch)"
    and "get deps name' = Some (JArr candidates)"
  shows "\<exists>t. get branch name' = Some t
     \<and> (\<forall>pre d post found.
          candidates = pre @ d # post
          \<and> (\<forall>c \<in> set pre.
                resolves_missing (candidate env (resolver_of env n) (dirname env src') options parent' c))
          \<and> candidate env (resolver_of env n) (dirname env src') options parent' d = Some (Inr found)
          \<and> \<not> missing found
          \<longrightarrow> t = found)
     \<and> ((\<forall>c \<in> set candidates.
            resolves_missing (candidate env (resolver_of env n) (dirname env src') options parent' c))
          \<longrightarrow> missing t)
     \<and> (candidates = [] \<longrightarrow> t = MISSING_DEPENDENCY)"
proof -
  let ?r = "resolver_of env n"
  let ?step = "try_candidate env ?r (dirname env src') options parent'"
  from assms(2) have k: "name' \<in> set (map fst deps)"
    by (auto simp: get_def dest: map_of_SomeD intro: rev_image_eqI)
  from zipped_entries(3)[OF assms(1)[unfolded resolver_of_Suc type_map_body] k] assms(2)
  obtain t where f: "foldl ?step (Some (Inr MISSING_DEPENDENCY)) candidates = Some (Inr t)"
    and t: "get branch name' = Some t"
    by (auto simp: arrify_def get_def)
  have m: "missing MISSING_DEPENDENCY" by (simp add: MISSING_DEPENDENCY_def)
  have "t = found" if "candidates = pre @ d # post"
      "\<forall>c \<in> set pre. resolves_missing (candidate env ?r (dirname env src') options parent' c)"
      "candidate env ?r (dirname env src') options parent' d = Some (Inr found)" "\<not> missing found"
    for pre d post found
    using try_candidates_first_found[OF m that(2,3,4), of post] f that(1) by simp
  moreover have "missing t"
    if "\<forall>c \<in> set candidates. resolves_missing (candidate env ?r (dirname env src') options parent' c)"
    using try_candidates_all_missing[OF m that] f by auto
  moreover have "candidates = [] \<longrightarrow> t = MISSING_DEPENDENCY" using f by auto
  ultimately show ?thesis using t by blast
qed

text \<open>
  The same for the sample config: the first candidate is not installed, the second is a
  definition file and is the entry, and the third is never resolved.
\<close>

theorem first_found_candidate_wins_witness:
  "get [(''x'', JArr [JStr ''npm:nope'', JStr ''file:x.d.ts'', JStr ''npm:a'']),
        (''c'', JStr ''file:c.d.ts'')] ''x''
     = Some (JArr [JStr ''npm:nope'', JStr ''file:x.d.ts'', JStr ''npm:a''])
   \<and> resolves_missing (candidate sample (resolver_of sample (Suc (Suc 0)))
         (dirname sample ''/p/typings.json'') sample_options
         (type_tree sample_typings_json ''/p/typings.json'' None) (JStr ''npm:nope''))
   \<and> candidate sample (resolver_of sample (Suc (Suc 0)))
         (dirname sample ''/p/typings.json'') sample_options
         (type_tree sample_typings_json ''/p/typings.json'' None) (JStr ''file:x.d.ts'')
       = Some (Inr (definition_tree ''/p/x.d.ts''
           (Some (type_tree sample_typings_json ''/p/typings.json'' None))))
   \<and> (\<exists>branch.
        resolveTypeDependencyMap (resolver_of sample (Suc (Suc (Suc 0)))) ''/p/typings.json''
          [(''x'', JArr [JStr ''npm:nope'', JStr ''file:x.d.ts'', JStr ''npm:a'']),
           (''c'', JStr ''file:c.d.ts'')]
          sample_options (type_tree sample_typings_json ''/p/typings.json'' None)
          = Some (Inr branch)
        \<and> get branch ''x'' = Some (definition_tree ''/p/x.d.ts''
           (Some (type_tree sample_typings_json ''/p/typings.json'' None))))"
proof -
  let ?deps = "[(''x'', JArr [JStr ''npm:nope'', JStr ''file:x.d.ts'', JStr ''npm:a'']),
        (''c'', JStr ''file:c.d.ts'')]"
  let ?p = "type_tree sample_typings_json ''/p/typings.json'' None"
  let ?found = "definition_tree ''/p/x.d.ts'' (Some ?p)"
  have g: "get ?deps ''x'' = Some (JArr [JStr ''npm:nope'', JStr ''file:x.d.ts'', JStr ''npm:a''])"
    by (simp add: get_def)
  have m: "resolves_missing (candidate sample (resolver_of sample (Suc (Suc 0)))
         (dirname sample ''/p/typings.json'') sample_options ?p (JStr ''npm:nope''))"
    by (simp add: resolves_missing_def candidate_def evals sample_defs)
  have f: "candidate sample (resolver_of sample (Suc (Suc 0)))
         (dirname sample ''/p/typings.json'') sample_options ?p (JStr ''file:x.d.ts'')
       = Some (Inr ?found)"
    by (simp add: candidate_def evals sample_defs)
  have nm: "\<not> missing ?found" by (simp add: definition_tree_def)
  obtain branch where b: "resolveTypeDependencyMap (resolver_of sample (Suc (Suc (Suc 0))))
      ''/p/typings.json'' ?deps sample_options ?p = Some (Inr branch)"
    by (simp add: evals sample_defs)
  from first_found_candidate_wins[OF b g] obtain t where t: "get branch ''x'' = Some t"
    and w: "\<And>pre d post found.
          [JStr ''npm:nope'', JStr ''file:x.d.ts'', JStr ''npm:a''] = pre @ d # post
          \<and> (\<forall>c \<in> set pre. resolves_missing (candidate sample (resolver_of sample (Suc (Suc 0)))
                 (dirname sample ''/p/typings.json'') sample_options ?p c))
          \<and> candidate sample (resolver_of sample (Suc (Suc 0)))
                 (dirname sample ''/p/typings.json'') sample_options ?p d = Some (Inr found)
          \<and> \<not> missing found
          \<Longrightarrow> t = found"
    by blast
  from w[of "[JStr ''npm:nope'']" "JStr ''file:x.d.ts''" "[JStr ''npm:a'']" ?found] m f nm
  have "t = ?found" by simp
  with g m f b t show ?thesis by blast
qed

text \<open>
  C6. The three map functions resolve their children under \<^verbatim>\<open>dev = false\<close> and
  \<^verbatim>\<open>ambient = false\<close> whatever the caller's flags are; every child they return has
  empty \<^verbatim>\<open>devDependencies\<close>, \<^verbatim>\<open>ambientDependencies\<close> and
  \<^verbatim>\<open>ambientDevDependencies\<close>; and with \<^verbatim>\<open>dev\<close> off, manifests that differ only in
  their \<^verbatim>\<open>devDependencies\<close> resolve to the same tree.
\<close>

theorem non_root_expansion_without_dev_ambient:
  "resolveBowerDependencyMap (resolver_of env n) c deps options p
     = resolveBowerDependencyMap (resolver_of env n) c deps
         (options\<lparr>dev := False, ambient := False\<rparr>) p
   \<and> resolveNpmDependencyMap (resolver_of env n) s deps options p
     = resolveNpmDependencyMap (resolver_of env n) s deps
         (options\<lparr>dev := False, ambient := False\<rparr>) p
   \<and> resolveTypeDependencyMap (resolver_of env n) s deps options p
     = resolveTypeDependencyMap (resolver_of env n) s deps
         (options\<lparr>dev := False, ambient := False\<rparr>) p
   \<and> (resolveBowerDependencyMap (resolver_of env n) c deps options p = Some (Inr b)
      \<or> resolveNpmDependencyMap (resolver_of env n) s deps options p = Some (Inr b)
      \<or> resolveTypeDependencyMap (resolver_of env n) s deps options p = Some (Inr b)
      \<longrightarrow> (\<forall>(k, t) \<in> set b. unexpanded t))
   \<and> (\<not> dev options \<and> same_but_devDependencies parse' (parse env)
      \<longrightarrow> resolveDependencies n (env\<lparr>parse := parse'\<rparr>) options
          = resolveDependencies n env options)"
proof -
  have "\<forall>(k, t) \<in> set b. unexpanded t"
    if "resolveBowerDependencyMap (resolver_of env n) c deps options p = Some (Inr b)
      \<or> resolveNpmDependencyMap (resolver_of env n) s deps options p = Some (Inr b)
      \<or> resolveTypeDependencyMap (resolver_of env n) s deps options p = Some (Inr b)"
    using that by (auto dest: map_children_unexpanded)
  then show ?thesis
    using map_flags_ignored[of env n] root_devDependencies_unread[of options parse' env n]
    by simp
qed

text \<open>
  The same for the sample project: the installed package is resolved unexpanded for a
  caller who asks for everything, and removing the root's dev dependency changes nothing
  for a caller who does not ask for dev dependencies.
\<close>

theorem non_root_expansion_without_dev_ambient_witness:
  "\<not> dev sample_options
   \<and> same_but_devDependencies sample_parse_edited (parse sample)
   \<and> resolveDependencies (Suc (Suc (Suc (Suc (Suc (Suc 0)))))) (sample\<lparr>parse := sample_parse_edited\<rparr>)
        sample_options
       = resolveDependencies (Suc (Suc (Suc (Suc (Suc (Suc 0)))))) sample sample_options
   \<and> (\<exists>b t. resolveNpmDependencyMap (resolver_of sample (Suc (Suc (Suc (Suc 0)))))
          ''/p/package.json'' [(''a'', JStr ''1.0.0'')] dev_options
          (npm_tree sample_package_json ''/p/package.json'' None) = Some (Inr b)
        \<and> b = [(''a'', t)] \<and> unexpanded t)"
proof -
  have d: "\<not> dev sample_options" by (simp add: sample_options_def)
  obtain b where b: "resolveNpmDependencyMap (resolver_of sample (Suc (Suc (Suc (Suc 0)))))
          ''/p/package.json'' [(''a'', JStr ''1.0.0'')] dev_options
          (npm_tree sample_package_json ''/p/package.json'' None) = Some (Inr b)"
    by (simp add: evals sample_defs dev_options_def)
  then obtain t where t: "b = [(''a'', t)]"
    by (simp add: evals sample_defs dev_options_def) blast
  from non_root_expansion_without_dev_ambient[of sample "Suc (Suc (Suc (Suc 0)))"
      "''/p/bower_components''" "[(''a'', JStr ''1.0.0'')]" dev_options
      "npm_tree sample_package_json ''/p/package.json'' None" "''/p/package.json''" b
      sample_parse_edited] b t
  have u: "unexpanded t" by simp
  from non_root_expansion_without_dev_ambient[of sample "Suc (Suc (Suc (Suc (Suc (Suc 0)))))"
      "''/p/bower_components''" "[]" sample_options
      "npm_tree sample_package_json ''/p/package.json'' None" "''/p/package.json''" "[]"
      sample_parse_edited] d sample_parse_edited_same
  have e: "resolveDependencies (Suc (Suc (Suc (Suc (Suc (Suc 0))))))
        (sample\<lparr>parse := sample_parse_edited\<rparr>) sample_options
       = resolveDependencies (Suc (Suc (Suc (Suc (Suc (Suc 0)))))) sample sample_options"
    by simp
  from d sample_parse_edited_same e b t u show ?thesis by blast
qed

end
